theory Spec2Isabelle
  imports Complex_Main "HOL-Library.Word"
begin

section \<open>The host engine and failed checks\<close>

text \<open>
  A failed \<^verbatim>\<open>checkf\<close> halts the program; it is the only failure the code under study
  signals, and every function that can reach one returns \<open>error + 'a\<close>.
\<close>

datatype error = CheckFailed

text \<open>
  \<^verbatim>\<open>FKey\<close> is the host's key identifier: a name, compared by name. The \<^verbatim>\<open>EKeys\<close>
  constants the code mentions are the keys of these names.
\<close>

datatype FKey = FKey (KeyName: string)

definition EKeys_LeftMouseButton :: FKey where
  "EKeys_LeftMouseButton = FKey ''LeftMouseButton''"

definition EKeys_MiddleMouseButton :: FKey where
  "EKeys_MiddleMouseButton = FKey ''MiddleMouseButton''"

definition EKeys_RightMouseButton :: FKey where
  "EKeys_RightMouseButton = FKey ''RightMouseButton''"

definition EKeys_ThumbMouseButton :: FKey where
  "EKeys_ThumbMouseButton = FKey ''ThumbMouseButton''"

definition EKeys_ThumbMouseButton2 :: FKey where
  "EKeys_ThumbMouseButton2 = FKey ''ThumbMouseButton2''"

text \<open>
  What the code reads from the engine, at the moment of each call: the global frame
  counter \<^verbatim>\<open>GFrameNumber\<close> (a \<^verbatim>\<open>uint32\<close>), the console variable
  \<^verbatim>\<open>CVars::DebugDrawOnWorldTick\<close>, the key manager's
  \<^verbatim>\<open>GetCodesFromKey\<close> (it hands back two pointers, either of which may stay null) and
  the directory \<^verbatim>\<open>FPaths::ProjectSavedDir()\<close>. None of it is code of the repository, so
  all of it is a parameter.
\<close>

record host =
  GFrameNumber :: "32 word"
  DebugDrawOnWorldTick :: int
  GetCodesFromKey :: "FKey \<Rightarrow> 32 word option \<times> 32 word option"
  ProjectSavedDir :: string

section \<open>Interoperability: keys, mouse buttons and cursors (ImGuiInteroperability.cpp)\<close>

definition GetKeyIndex :: "host \<Rightarrow> FKey \<Rightarrow> error + 32 word" where
  "GetKeyIndex H Key =
     (case GetCodesFromKey H Key of
        (Some KeyCode, _) \<Rightarrow> Inr KeyCode
      | (None, Some CharCode) \<Rightarrow> Inr CharCode
      | (None, None) \<Rightarrow> Inl CheckFailed)"

text \<open>
  Several \<^verbatim>\<open>GetKeyIndex\<close> calls in a row, as the initialisers of \<^verbatim>\<open>SetUnrealKeyMap\<close>
  and of the statics of \<^verbatim>\<open>CopyInput\<close> make them: the first failed check ends the run.
\<close>

fun GetKeyIndices :: "host \<Rightarrow> FKey list \<Rightarrow> error + 32 word list" where
  "GetKeyIndices H [] = Inr []"
| "GetKeyIndices H (Key # Keys) =
     (case GetKeyIndex H Key of
        Inl e \<Rightarrow> Inl e
      | Inr Code \<Rightarrow>
          (case GetKeyIndices H Keys of
             Inl e \<Rightarrow> Inl e
           | Inr Codes \<Rightarrow> Inr (Code # Codes)))"

text \<open>The \<^verbatim>\<open>return -1\<close> of a \<^verbatim>\<open>uint32\<close> function is the word \<open>- 1\<close>.\<close>

definition GetMouseIndex :: "FKey \<Rightarrow> 32 word" where
  "GetMouseIndex MouseButton =
     (if MouseButton = EKeys_LeftMouseButton then 0
      else if MouseButton = EKeys_MiddleMouseButton then 2
      else if MouseButton = EKeys_RightMouseButton then 1
      else if MouseButton = EKeys_ThumbMouseButton then 3
      else if MouseButton = EKeys_ThumbMouseButton2 then 4
      else - 1)"

text \<open>
  \<^verbatim>\<open>ImGuiMouseCursor\<close> is an \<^verbatim>\<open>int\<close> with named enumerators; a value that is none of
  them takes the \<^verbatim>\<open>default\<close> branch.
\<close>

datatype ImGuiMouseCursor =
    ImGuiMouseCursor_None
  | ImGuiMouseCursor_Arrow
  | ImGuiMouseCursor_TextInput
  | ImGuiMouseCursor_Move
  | ImGuiMouseCursor_ResizeNS
  | ImGuiMouseCursor_ResizeEW
  | ImGuiMouseCursor_ResizeNESW
  | ImGuiMouseCursor_ResizeNWSE
  | ImGuiMouseCursor_GrabOpen
  | ImGuiMouseCursor_GrabClosed
  | ImGuiMouseCursor_Hand
  | ImGuiMouseCursor_Unnamed int

datatype EMouseCursor =
    EMouseCursor_None
  | EMouseCursor_Default
  | EMouseCursor_TextEditBeam
  | EMouseCursor_CardinalCross
  | EMouseCursor_ResizeUpDown
  | EMouseCursor_ResizeLeftRight
  | EMouseCursor_ResizeSouthWest
  | EMouseCursor_ResizeSouthEast
  | EMouseCursor_GrabHand
  | EMouseCursor_GrabHandClosed
  | EMouseCursor_Hand

fun ToSlateMouseCursor :: "ImGuiMouseCursor \<Rightarrow> EMouseCursor" where
  "ToSlateMouseCursor ImGuiMouseCursor_Arrow = EMouseCursor_Default"
| "ToSlateMouseCursor ImGuiMouseCursor_TextInput = EMouseCursor_TextEditBeam"
| "ToSlateMouseCursor ImGuiMouseCursor_Move = EMouseCursor_CardinalCross"
| "ToSlateMouseCursor ImGuiMouseCursor_ResizeNS = EMouseCursor_ResizeUpDown"
| "ToSlateMouseCursor ImGuiMouseCursor_ResizeEW = EMouseCursor_ResizeLeftRight"
| "ToSlateMouseCursor ImGuiMouseCursor_ResizeNESW = EMouseCursor_ResizeSouthWest"
| "ToSlateMouseCursor ImGuiMouseCursor_ResizeNWSE = EMouseCursor_ResizeSouthEast"
| "ToSlateMouseCursor ImGuiMouseCursor_GrabOpen = EMouseCursor_GrabHand"
| "ToSlateMouseCursor ImGuiMouseCursor_GrabClosed = EMouseCursor_GrabHandClosed"
| "ToSlateMouseCursor ImGuiMouseCursor_Hand = EMouseCursor_Hand"
| "ToSlateMouseCursor ImGuiMouseCursor_None = EMouseCursor_None"
| "ToSlateMouseCursor (ImGuiMouseCursor_Unnamed v) = EMouseCursor_None"

section \<open>The library's input block and the input state\<close>

text \<open>
  The type \<open>'f\<close> stands for \<^verbatim>\<open>float\<close> throughout: the code only stores, copies and adds
  such values, so nothing is assumed of \<open>'f\<close> but the operations used. A 2D vector
  (\<^verbatim>\<open>ImVec2\<close>, \<^verbatim>\<open>FVector2D\<close>) is the pair of its two coordinates.

  \<^verbatim>\<open>ImGuiKey_\<close> names the entries of the library's key map that \<^verbatim>\<open>SetUnrealKeyMap\<close>
  fills.
\<close>

datatype ImGuiKey =
    ImGuiKey_Tab | ImGuiKey_LeftArrow | ImGuiKey_RightArrow | ImGuiKey_UpArrow
  | ImGuiKey_DownArrow | ImGuiKey_PageUp | ImGuiKey_PageDown | ImGuiKey_Home | ImGuiKey_End
  | ImGuiKey_Delete | ImGuiKey_Backspace | ImGuiKey_Enter | ImGuiKey_Escape | ImGuiKey_A
  | ImGuiKey_C | ImGuiKey_V | ImGuiKey_X | ImGuiKey_Y | ImGuiKey_Z | ImGuiKey_T
  | ImGuiKey_SpaceBar

text \<open>
  The fields of \<^verbatim>\<open>ImGuiIO\<close> that the code touches. \<^verbatim>\<open>KeysDown\<close>, \<^verbatim>\<open>MouseDown\<close> and
  \<^verbatim>\<open>InputCharacters\<close> are fixed-size arrays; \<^verbatim>\<open>Fonts_TexPixelsAlpha8\<close> says whether
  \<^verbatim>\<open>IO.Fonts->TexPixelsAlpha8\<close> is non-null.
\<close>

record 'f ImGuiIO =
  DeltaTime :: 'f
  IO_IniFilename :: string
  DisplaySize :: "'f \<times> 'f"
  Fonts_TexPixelsAlpha8 :: bool
  KeyMap :: "(ImGuiKey \<times> 32 word) list"
  MouseDrawCursor :: bool
  MousePos :: "'f \<times> 'f"
  MouseWheel :: 'f
  KeyCtrl :: bool
  KeyShift :: bool
  KeyAlt :: bool
  KeySuper :: bool
  KeysDown :: "bool list"
  MouseDown :: "bool list"
  InputCharacters :: "16 word list"

text \<open>
  Modelled from the spec: \<^verbatim>\<open>Utilities::TArrayIndexRange\<close> (Utilities/Arrays.h) is not among
  the sources. A dirty range is the span of indices \<open>[Begin, End)\<close> of a fixed-size array
  that changed since the last consumption, and it is empty when it holds no index.
\<close>

record TArrayIndexRange =
  GetBegin :: nat
  GetEnd :: nat

definition IsEmpty :: "TArrayIndexRange \<Rightarrow> bool" where
  "IsEmpty UpdateRange = (GetBegin UpdateRange = GetEnd UpdateRange)"

text \<open>
  Modelled from the spec: \<^verbatim>\<open>FImGuiInputState\<close> (ImGuiInputState.h) is not among the
  sources. Its fields here are the accessors \<^verbatim>\<open>CopyInput\<close> calls, one field each.
\<close>

record 'f FImGuiInputState =
  HasMousePointer :: bool
  GetMousePosition :: "'f \<times> 'f"
  GetMouseWheelDelta :: 'f
  IsControlDown :: bool
  IsShiftDown :: bool
  IsAltDown :: bool
  GetKeys :: "bool list"
  GetKeysUpdateRange :: TArrayIndexRange
  GetMouseButtons :: "bool list"
  GetMouseButtonsUpdateRange :: TArrayIndexRange
  GetCharactersNum :: int
  GetCharacters :: "16 word list"

text \<open>
  The copying utilities. Source and destination are arrays of one type, so of one size.
  \<^verbatim>\<open>Copy(Src, Dst)\<close> overwrites the whole destination; \<^verbatim>\<open>Copy(Src, Dst, Range)\<close> is
  \<^verbatim>\<open>std::copy(begin(Src) + Begin, begin(Src) + End, begin(Dst) + Begin)\<close>, one element
  after the other. The overload that takes a count is called nowhere in the code
  embedded here.
\<close>

definition Copy :: "'a list \<Rightarrow> 'a list \<Rightarrow> 'a list" where
  "Copy Src Dst = Src"

definition Copy_Range :: "'a list \<Rightarrow> 'a list \<Rightarrow> TArrayIndexRange \<Rightarrow> 'a list" where
  "Copy_Range Src Dst UpdateRange =
     fold (\<lambda>i D. D[i := Src ! i]) [GetBegin UpdateRange ..< GetEnd UpdateRange] Dst"

definition SetUnrealKeyMap_keys :: "(ImGuiKey \<times> FKey) list" where
  "SetUnrealKeyMap_keys =
     [(ImGuiKey_Tab, FKey ''Tab''), (ImGuiKey_LeftArrow, FKey ''Left''),
      (ImGuiKey_RightArrow, FKey ''Right''), (ImGuiKey_UpArrow, FKey ''Up''),
      (ImGuiKey_DownArrow, FKey ''Down''), (ImGuiKey_PageUp, FKey ''PageUp''),
      (ImGuiKey_PageDown, FKey ''PageDown''), (ImGuiKey_Home, FKey ''Home''),
      (ImGuiKey_End, FKey ''End''), (ImGuiKey_Delete, FKey ''Delete''),
      (ImGuiKey_Backspace, FKey ''BackSpace''), (ImGuiKey_Enter, FKey ''Enter''),
      (ImGuiKey_Escape, FKey ''Escape''), (ImGuiKey_A, FKey ''A''), (ImGuiKey_C, FKey ''C''),
      (ImGuiKey_V, FKey ''V''), (ImGuiKey_X, FKey ''X''), (ImGuiKey_Y, FKey ''Y''),
      (ImGuiKey_Z, FKey ''Z''), (ImGuiKey_T, FKey ''T''), (ImGuiKey_SpaceBar, FKey ''SpaceBar'')]"

definition SetUnrealKeyMap :: "host \<Rightarrow> 'f ImGuiIO \<Rightarrow> error + 'f ImGuiIO" where
  "SetUnrealKeyMap H IO =
     (case GetKeyIndices H (map snd SetUnrealKeyMap_keys) of
        Inl e \<Rightarrow> Inl e
      | Inr Codes \<Rightarrow> Inr (IO\<lparr>KeyMap := Copy (zip (map fst SetUnrealKeyMap_keys) Codes) (KeyMap IO)\<rparr>))"

text \<open>
  The six statics of \<^verbatim>\<open>CopyInput\<close> are initialised by \<^verbatim>\<open>GetKeyIndex\<close>; the body does
  not read them, but a failed check among them halts the call.
\<close>

definition CopyInput_statics :: "FKey list" where
  "CopyInput_statics =
     [FKey ''LeftControl'', FKey ''RightControl'', FKey ''LeftShift'', FKey ''RightShift'',
      FKey ''LeftAlt'', FKey ''RightAlt'']"

definition CopyInput ::
  "host \<Rightarrow> ('f::plus) ImGuiIO \<Rightarrow> 'f FImGuiInputState \<Rightarrow> error + 'f ImGuiIO" where
  "CopyInput H IO InState =
     (case GetKeyIndices H CopyInput_statics of
        Inl e \<Rightarrow> Inl e
      | Inr Codes \<Rightarrow>
          (let IO = IO\<lparr>MouseDrawCursor := HasMousePointer InState\<rparr>;
               IO = IO\<lparr>MousePos := (fst (GetMousePosition InState), snd (GetMousePosition InState))\<rparr>;
               IO = IO\<lparr>MouseWheel := MouseWheel IO + GetMouseWheelDelta InState\<rparr>;
               IO = IO\<lparr>KeyCtrl := IsControlDown InState\<rparr>;
               IO = IO\<lparr>KeyShift := IsShiftDown InState\<rparr>;
               IO = IO\<lparr>KeyAlt := IsAltDown InState\<rparr>;
               IO = IO\<lparr>KeySuper := False\<rparr>;
               IO = (if \<not> IsEmpty (GetKeysUpdateRange InState)
                     then IO\<lparr>KeysDown :=
                            Copy_Range (GetKeys InState) (KeysDown IO) (GetKeysUpdateRange InState)\<rparr>
                     else IO);
               IO = (if \<not> IsEmpty (GetMouseButtonsUpdateRange InState)
                     then IO\<lparr>MouseDown :=
                            Copy_Range (GetMouseButtons InState) (MouseDown IO)
                              (GetMouseButtonsUpdateRange InState)\<rparr>
                     else IO);
               IO = (if GetCharactersNum InState > 0
                     then IO\<lparr>InputCharacters := Copy (GetCharacters InState) (InputCharacters IO)\<rparr>
                     else IO)
           in Inr IO))"

section \<open>Draw lists (ImGuiDrawData.h)\<close>

text \<open>
  The library's draw buffers. \<^verbatim>\<open>ImVector\<close> is a list (its \<^verbatim>\<open>Size\<close> is an \<^verbatim>\<open>int\<close>),
  \<^verbatim>\<open>ImDrawIdx\<close> is an \<^verbatim>\<open>unsigned short\<close>, \<^verbatim>\<open>ElemCount\<close> an \<^verbatim>\<open>unsigned int\<close>, a
  texture identifier an address, and a rectangle the tuple of its four coordinates.
\<close>

type_synonym ImDrawIdx = "16 word"

record 'f ImDrawCmd =
  ElemCount :: "32 word"
  ClipRect :: "'f \<times> 'f \<times> 'f \<times> 'f"
  TextureId :: nat

record 'f ImDrawVert =
  vert_pos :: "'f \<times> 'f"
  vert_uv :: "'f \<times> 'f"
  vert_col :: "32 word"

record 'f ImDrawList =
  CmdBuffer :: "'f ImDrawCmd list"
  IdxBuffer :: "ImDrawIdx list"
  VtxBuffer :: "'f ImDrawVert list"

record 'f ImDrawData =
  CmdLists :: "'f ImDrawList list"
  CmdListsCount :: int

record 'f FImGuiDrawCommand =
  NumElements :: "32 word"
  ClippingRect :: "'f \<times> 'f \<times> 'f \<times> 'f"
  TextureIndex :: nat

record 'f FImGuiDrawList =
  ImGuiCommandBuffer :: "'f ImDrawCmd list"
  ImGuiIndexBuffer :: "ImDrawIdx list"
  ImGuiVertexBuffer :: "'f ImDrawVert list"

text \<open>A default-constructed \<^verbatim>\<open>FImGuiDrawList\<close>: three empty vectors.\<close>

definition FImGuiDrawList_default :: "'f FImGuiDrawList" where
  "FImGuiDrawList_default =
     \<lparr>ImGuiCommandBuffer = [], ImGuiIndexBuffer = [], ImGuiVertexBuffer = []\<rparr>"

definition NumCommands :: "'f FImGuiDrawList \<Rightarrow> int" where
  "NumCommands This = int (length (ImGuiCommandBuffer This))"

text \<open>
  Modelled from the spec: \<^verbatim>\<open>ImGuiInterops::ToSlateRect\<close> and \<^verbatim>\<open>ToTextureIndex\<close>
  (ImGuiInteroperability.h) are not among the sources; the clip rectangle is translated to
  the consumer's rectangle of the same four coordinates and the texture reference is
  kept.
\<close>

definition ToSlateRect :: "'f \<times> 'f \<times> 'f \<times> 'f \<Rightarrow> 'f \<times> 'f \<times> 'f \<times> 'f" where
  "ToSlateRect ImGuiRect = ImGuiRect"

definition ToTextureIndex :: "nat \<Rightarrow> nat" where
  "ToTextureIndex Index = Index"

text \<open>The vector's \<^verbatim>\<open>operator[]\<close> asserts that the index is below its size.\<close>

definition GetCommand :: "'f FImGuiDrawList \<Rightarrow> nat \<Rightarrow> error + 'f FImGuiDrawCommand" where
  "GetCommand This CommandNb =
     (if CommandNb < length (ImGuiCommandBuffer This)
      then (let ImGuiCommand = ImGuiCommandBuffer This ! CommandNb
            in Inr \<lparr>NumElements = ElemCount ImGuiCommand,
                    ClippingRect = ToSlateRect (ClipRect ImGuiCommand),
                    TextureIndex = ToTextureIndex (TextureId ImGuiCommand)\<rparr>)
      else Inl CheckFailed)"

text \<open>
  Modelled from the spec: the body of \<^verbatim>\<open>FImGuiDrawList::CopyIndexData\<close>
  (ImGuiDrawData.cpp) is not among the sources. It copies a contiguous sub-range of the
  internal index buffer into the caller's buffer, whose old content is replaced;
  \<open>start + count\<close> must not exceed the recorded total, and a violation is a fatal
  check. Both arguments are \<^verbatim>\<open>int32\<close>; the result is the new content of the caller's
  buffer.
\<close>

definition CopyIndexData :: "'f FImGuiDrawList \<Rightarrow> int \<Rightarrow> int \<Rightarrow> error + ImDrawIdx list" where
  "CopyIndexData This StartIndex Count =
     (if StartIndex + Count \<le> int (length (ImGuiIndexBuffer This))
      then Inr (take (nat Count) (drop (nat StartIndex) (ImGuiIndexBuffer This)))
      else Inl CheckFailed)"

text \<open>
  Modelled from the spec: the body of \<^verbatim>\<open>FImGuiDrawList::TransferDrawData\<close>
  (ImGuiDrawData.cpp) is not among the sources. It transfers the data of the library's
  list to this object, out of the library's buffers into storage the proxy owns, and
  leaves the source cleared. The result is this object and the source, after the call.
\<close>

definition TransferDrawData ::
  "'f FImGuiDrawList \<Rightarrow> 'f ImDrawList \<Rightarrow> 'f FImGuiDrawList \<times> 'f ImDrawList" where
  "TransferDrawData This Src =
     (\<lparr>ImGuiCommandBuffer = CmdBuffer Src, ImGuiIndexBuffer = IdxBuffer Src,
       ImGuiVertexBuffer = VtxBuffer Src\<rparr>,
      \<lparr>CmdBuffer = [], IdxBuffer = [], VtxBuffer = []\<rparr>)"

section \<open>Painting: the index ranges of a draw list (SImGuiWidget.cpp)\<close>

text \<open>
  The value of a 32-bit pattern read as \<^verbatim>\<open>int32\<close>. A \<^verbatim>\<open>uint32\<close> passed for an
  \<^verbatim>\<open>int32\<close> parameter, and the sum of an \<^verbatim>\<open>int\<close> and a \<^verbatim>\<open>uint32\<close> stored to an
  \<^verbatim>\<open>int\<close>, are converted so.
\<close>

definition to_int32 :: "int \<Rightarrow> int" where
  "to_int32 v = (let m = v mod 2 ^ 32 in if m < 2 ^ 31 then m else m - 2 ^ 32)"

text \<open>
  The inner loop of \<^verbatim>\<open>SImGuiWidget::OnPaint\<close> over the commands of one draw list, from
  command \<open>CommandNb\<close> on with the running \<^verbatim>\<open>IndexBufferOffset\<close>: each command has its
  indices copied from the running offset, which then advances by the command's number
  of elements. The result lists the content of \<^verbatim>\<open>IndexBuffer\<close> at each command. What
  the loop then does with vertices, textures, clipping and batches is not modelled.
\<close>

function OnPaint_CopyIndexData ::
  "'f FImGuiDrawList \<Rightarrow> nat \<Rightarrow> int \<Rightarrow> error + ImDrawIdx list list" where
  "OnPaint_CopyIndexData DrawList CommandNb IndexBufferOffset =
     (if int CommandNb < NumCommands DrawList then
        (case GetCommand DrawList CommandNb of
           Inl e \<Rightarrow> Inl e
         | Inr DrawCommand \<Rightarrow>
             (case CopyIndexData DrawList IndexBufferOffset
                     (to_int32 (uint (NumElements DrawCommand))) of
                Inl e \<Rightarrow> Inl e
              | Inr IndexBuffer \<Rightarrow>
                  (case OnPaint_CopyIndexData DrawList (CommandNb + 1)
                          (to_int32 (IndexBufferOffset + uint (NumElements DrawCommand))) of
                     Inl e \<Rightarrow> Inl e
                   | Inr Rest \<Rightarrow> Inr (IndexBuffer # Rest))))
      else Inr [])"
  by pat_completeness auto
termination
  by (relation "measure (\<lambda>(DrawList, CommandNb, IndexBufferOffset).
        nat (NumCommands DrawList) - CommandNb)") (auto simp: NumCommands_def)

section \<open>The context proxy (ImGuiContextProxy.h, ImGuiContextProxy.cpp)\<close>

text \<open>
  A library context is either the library's static default context or one created on
  the heap by \<^verbatim>\<open>ImGui::CreateContext\<close>.
\<close>

datatype ImGuiContext = GImDefaultContext | HeapContext nat

text \<open>Which font atlas \<^verbatim>\<open>GetTexDataAsRGBA32\<close> is called on.\<close>

datatype ImFontAtlas = TemporaryAtlas | IO_Fonts

text \<open>
  The library is a black box. The model records every call into it, every store into
  memory it owns and every broadcast to the listeners, in the order they happen; what the
  library answers is a function of that history (the record \<open>ImGui\<close> below), about
  which nothing is assumed.
\<close>

datatype 'f call =
    ImGui_CreateContext ImGuiContext
  | ImGui_SetCurrentContext "ImGuiContext option"
  | ImGui_DestroyContext ImGuiContext
  | SaveIniSettingsToDisk string
  | GetTexDataAsRGBA32 ImFontAtlas
  | IO_store "'f ImGuiIO"
  | ImGui_NewFrame
  | ImGui_Render
  | ImDrawList_store nat "'f ImDrawList"
  | DrawEvent_Broadcast "nat list"
  | SharedDrawEvent_Broadcast "nat list"

record 'f ImGui =
  CreateContext :: "'f call list \<Rightarrow> nat"
  GetIO :: "'f call list \<Rightarrow> 'f ImGuiIO"
  GetDrawData :: "'f call list \<Rightarrow> 'f ImDrawData option"
  IsAnyItemActive :: "'f call list \<Rightarrow> bool"
  GetMouseCursor :: "'f call list \<Rightarrow> ImGuiMouseCursor"

text \<open>
  A multicast delegate is the list of the handles of its bound listeners; a broadcast
  notifies them all, and is recorded with the listeners it notified. What a listener does
  to the library is part of the history from then on, and so of what the library answers.
\<close>

type_synonym FSimpleMulticastDelegate = "nat list"

definition IsBound :: "FSimpleMulticastDelegate \<Rightarrow> bool" where
  "IsBound Event = (Event \<noteq> [])"

text \<open>
  The members of \<^verbatim>\<open>FImGuiContextProxy\<close>, as the header declares them, then the two
  pieces of global state its methods act on: the library's current-context pointer
  \<^verbatim>\<open>GImGui\<close> and the history of calls. A pointer that may be null is an option;
  \<^verbatim>\<open>SharedDrawEvent\<close>, when not null, holds the delegate it points to.
\<close>

record 'f FImGuiContextProxy =
  Context :: "ImGuiContext option"
  MouseCursor :: EMouseCursor
  bHasActiveItem :: bool
  bIsFrameStarted :: bool
  bIsDrawCalled :: bool
  LastFrameNumber :: "32 word"
  DrawEvent :: FSimpleMulticastDelegate
  SharedDrawEvent :: "FSimpleMulticastDelegate option"
  InputState :: "'f FImGuiInputState option"
  DrawLists :: "'f FImGuiDrawList list"
  Name :: string
  IniFilename :: string
  GImGui :: "ImGuiContext option"
  calls :: "'f call list"

definition SetAsCurrent :: "'f FImGuiContextProxy \<Rightarrow> 'f FImGuiContextProxy" where
  "SetAsCurrent s =
     s\<lparr>GImGui := Context s, calls := calls s @ [ImGui_SetCurrentContext (Context s)]\<rparr>"

text \<open>
  \<^verbatim>\<open>FPaths::Combine\<close> joins two path components with a slash. The directory is created
  by the host's file system when \<^verbatim>\<open>GetSaveDirectory\<close> first runs; that effect is outside
  the model, as is the narrowing of the path by \<^verbatim>\<open>TCHAR_TO_ANSI\<close>.
\<close>

definition Combine :: "string \<Rightarrow> string \<Rightarrow> string" where
  "Combine A B = A @ ''/'' @ B"

definition GetSaveDirectory :: "host \<Rightarrow> string" where
  "GetSaveDirectory H = Combine (ProjectSavedDir H) ''ImGui''"

definition GetIniFile :: "host \<Rightarrow> string \<Rightarrow> string" where
  "GetIniFile H InName = Combine (GetSaveDirectory H) (InName @ ''.ini'')"

definition BeginFrame ::
  "host \<Rightarrow> 'f ImGui \<Rightarrow> ('f::plus) \<Rightarrow> 'f FImGuiContextProxy \<Rightarrow> error + 'f FImGuiContextProxy" where
  "BeginFrame H L DeltaSeconds s =
     (if \<not> bIsFrameStarted s then
        (let IO = GetIO L (calls s);
             IO = IO\<lparr>DeltaTime := DeltaSeconds\<rparr>
         in case (case InputState s of
                    Some InState \<Rightarrow> CopyInput H IO InState
                  | None \<Rightarrow> Inr IO) of
              Inl e \<Rightarrow> Inl e
            | Inr IO \<Rightarrow>
                Inr (s\<lparr>calls := calls s @ [IO_store IO, ImGui_NewFrame],
                       bIsFrameStarted := True,
                       bIsDrawCalled := False\<rparr>))
      else Inr s)"

text \<open>
  \<^verbatim>\<open>TArray::SetNum\<close>: the array keeps its first elements and is filled up with
  default-constructed ones.
\<close>

definition SetNum :: "nat \<Rightarrow> 'a \<Rightarrow> 'a list \<Rightarrow> 'a list" where
  "SetNum NewNum Default Array = take NewNum Array @ replicate (NewNum - length Array) Default"

definition UpdateDrawData ::
  "'f ImDrawData option \<Rightarrow> 'f FImGuiContextProxy \<Rightarrow> 'f FImGuiContextProxy" where
  "UpdateDrawData DrawData s =
     (case DrawData of
        Some D \<Rightarrow>
          if CmdListsCount D > 0 then
            fold (\<lambda>Index s.
                    let (This, Src) = TransferDrawData (DrawLists s ! Index) (CmdLists D ! Index)
                    in s\<lparr>DrawLists := (DrawLists s)[Index := This],
                         calls := calls s @ [ImDrawList_store Index Src]\<rparr>)
              [0 ..< nat (CmdListsCount D)]
              (s\<lparr>DrawLists :=
                   SetNum (nat (CmdListsCount D)) FImGuiDrawList_default (DrawLists s)\<rparr>)
          else s\<lparr>DrawLists := []\<rparr>
      | None \<Rightarrow> s\<lparr>DrawLists := []\<rparr>)"

definition EndFrame :: "'f ImGui \<Rightarrow> 'f FImGuiContextProxy \<Rightarrow> 'f FImGuiContextProxy" where
  "EndFrame L s =
     (if bIsFrameStarted s then
        (let s = s\<lparr>calls := calls s @ [ImGui_Render]\<rparr>;
             s = UpdateDrawData (GetDrawData L (calls s)) s
         in s\<lparr>bIsFrameStarted := False\<rparr>)
      else s)"

definition Draw :: "host \<Rightarrow> 'f FImGuiContextProxy \<Rightarrow> 'f FImGuiContextProxy" where
  "Draw H s =
     (if bIsFrameStarted s \<and> \<not> bIsDrawCalled s then
        (let s = s\<lparr>bIsDrawCalled := True\<rparr>;
             s = SetAsCurrent s;
             bSharedFirst = (DebugDrawOnWorldTick H > 0);
             s = (case SharedDrawEvent s of
                    Some Event \<Rightarrow>
                      if bSharedFirst \<and> IsBound Event
                      then s\<lparr>calls := calls s @ [SharedDrawEvent_Broadcast Event]\<rparr> else s
                  | None \<Rightarrow> s);
             s = (if IsBound (DrawEvent s)
                  then s\<lparr>calls := calls s @ [DrawEvent_Broadcast (DrawEvent s)]\<rparr> else s);
             s = (case SharedDrawEvent s of
                    Some Event \<Rightarrow>
                      if \<not> bSharedFirst \<and> IsBound Event
                      then s\<lparr>calls := calls s @ [SharedDrawEvent_Broadcast Event]\<rparr> else s
                  | None \<Rightarrow> s)
         in s)
      else s)"

definition Tick ::
  "host \<Rightarrow> 'f ImGui \<Rightarrow> ('f::plus) \<Rightarrow> 'f FImGuiContextProxy \<Rightarrow> error + 'f FImGuiContextProxy" where
  "Tick H L DeltaSeconds s =
     (if LastFrameNumber s < GFrameNumber H then
        (let s = s\<lparr>LastFrameNumber := GFrameNumber H\<rparr>;
             s = SetAsCurrent s;
             s = (if bIsFrameStarted s then EndFrame L (Draw H s) else s);
             s = s\<lparr>bHasActiveItem := IsAnyItemActive L (calls s)\<rparr>;
             s = s\<lparr>MouseCursor := ToSlateMouseCursor (GetMouseCursor L (calls s))\<rparr>
         in BeginFrame H L DeltaSeconds s)
      else Inr s)"

text \<open>
  The constructor, in a world whose history so far is \<open>history\<close>. The members start
  from their initialisers in the header; \<^verbatim>\<open>BeginFrame()\<close> runs with its default argument
  \<^verbatim>\<open>1.f / 60.f\<close>.
\<close>

definition DEFAULT_CANVAS_WIDTH :: "'f::numeral" where
  "DEFAULT_CANVAS_WIDTH = 3840"

definition DEFAULT_CANVAS_HEIGHT :: "'f::numeral" where
  "DEFAULT_CANVAS_HEIGHT = 2160"

definition FImGuiContextProxy_Construct ::
  "host \<Rightarrow> 'f ImGui \<Rightarrow> string \<Rightarrow> FSimpleMulticastDelegate option \<Rightarrow> 'f call list
   \<Rightarrow> error + ('f::{numeral,inverse}) FImGuiContextProxy" where
  "FImGuiContextProxy_Construct H L InName InSharedDrawEvent history =
     (let s = \<lparr>Context = None, MouseCursor = EMouseCursor_None, bHasActiveItem = False,
               bIsFrameStarted = False, bIsDrawCalled = False, LastFrameNumber = 0,
               DrawEvent = [], SharedDrawEvent = InSharedDrawEvent, InputState = None,
               DrawLists = [], Name = InName, IniFilename = GetIniFile H InName,
               GImGui = None, calls = history\<rparr>;
          NewContext = HeapContext (CreateContext L (calls s));
          s = s\<lparr>Context := Some NewContext, calls := calls s @ [ImGui_CreateContext NewContext]\<rparr>;
          s = SetAsCurrent s;
          IO = GetIO L (calls s);
          IO = IO\<lparr>IO_IniFilename := IniFilename s\<rparr>;
          IO = IO\<lparr>DisplaySize := (DEFAULT_CANVAS_WIDTH, DEFAULT_CANVAS_HEIGHT)\<rparr>;
          bIsAltasBuilt = Fonts_TexPixelsAlpha8 IO;
          s = s\<lparr>calls := calls s @ [IO_store IO,
                 GetTexDataAsRGBA32 (if bIsAltasBuilt then TemporaryAtlas else IO_Fonts)]\<rparr>
      in case SetUnrealKeyMap H (GetIO L (calls s)) of
           Inl e \<Rightarrow> Inl e
         | Inr IO \<Rightarrow> BeginFrame H L (1 / 60) (s\<lparr>calls := calls s @ [IO_store IO]\<rparr>))"

text \<open>
  The destructor. \<^verbatim>\<open>Context.Release()\<close> leaves the member null. The library's
  \<^verbatim>\<open>ImGui::DestroyContext\<close> frees the context and nulls the current-context pointer
  when the freed context was the current one; the statement after it overwrites the
  pointer in any case.
\<close>

definition FImGuiContextProxy_Destruct :: "'f FImGuiContextProxy \<Rightarrow> 'f FImGuiContextProxy" where
  "FImGuiContextProxy_Destruct s =
     (case Context s of
        Some Released \<Rightarrow>
          (let s = SetAsCurrent s;
               s = s\<lparr>calls := calls s @ [SaveIniSettingsToDisk (IniFilename s)]\<rparr>;
               s = s\<lparr>Context := None,
                      GImGui := (if GImGui s = Some Released then None else GImGui s),
                      calls := calls s @ [ImGui_DestroyContext Released]\<rparr>;
               s = s\<lparr>GImGui := Some GImDefaultContext,
                      calls := calls s @ [ImGui_SetCurrentContext (Some GImDefaultContext)]\<rparr>
           in s)
      | None \<Rightarrow> s)"

section \<open>The life of a proxy\<close>

text \<open>
  The states a proxy can be in while it lives. It is constructed, with the save
  directory the host names; then its public methods \<^verbatim>\<open>Tick\<close> and \<^verbatim>\<open>Draw\<close> run,
  an input state is bound or removed, listeners are added to or removed from the two
  delegates, and other code calls into the library and moves its current-context
  pointer.
\<close>

inductive live_proxy :: "string \<Rightarrow> ('f::{numeral,inverse}) FImGuiContextProxy \<Rightarrow> bool"
  for SavedDir :: string where
  constructed:
    "FImGuiContextProxy_Construct H L InName InSharedDrawEvent history = Inr s
     \<Longrightarrow> ProjectSavedDir H = SavedDir \<Longrightarrow> live_proxy SavedDir s"
| ticked:
    "live_proxy SavedDir s \<Longrightarrow> Tick H L DeltaSeconds s = Inr s' \<Longrightarrow> live_proxy SavedDir s'"
| drawn:
    "live_proxy SavedDir s \<Longrightarrow> live_proxy SavedDir (Draw H s)"
| input_state_set:
    "live_proxy SavedDir s \<Longrightarrow> live_proxy SavedDir (s\<lparr>InputState := SourceInputState\<rparr>)"
| listeners_changed:
    "live_proxy SavedDir s \<Longrightarrow> (SharedDrawEvent s = None) = (Shared = None)
     \<Longrightarrow> live_proxy SavedDir (s\<lparr>DrawEvent := Own, SharedDrawEvent := Shared\<rparr>)"
| library_used:
    "live_proxy SavedDir s
     \<Longrightarrow> live_proxy SavedDir (s\<lparr>GImGui := Current, calls := calls s @ others\<rparr>)"

section \<open>Example inputs\<close>

text \<open>Concrete inputs on which the theorems below are exercised.\<close>

definition example_host :: host where
  "example_host =
     \<lparr>GFrameNumber = 7, DebugDrawOnWorldTick = 0,
      GetCodesFromKey = (\<lambda>Key. (Some (of_nat (length (KeyName Key))), None)),
      ProjectSavedDir = ''Saved''\<rparr>"

definition example_host_no_codes :: host where
  "example_host_no_codes = example_host\<lparr>GetCodesFromKey := (\<lambda>Key. (None, None))\<rparr>"

definition example_IO :: "rat ImGuiIO" where
  "example_IO =
     \<lparr>DeltaTime = 0, IO_IniFilename = [], DisplaySize = (0, 0), Fonts_TexPixelsAlpha8 = False,
      KeyMap = [], MouseDrawCursor = False, MousePos = (0, 0), MouseWheel = 2,
      KeyCtrl = False, KeyShift = True, KeyAlt = False, KeySuper = True,
      KeysDown = [False, False, False, True], MouseDown = [True, False],
      InputCharacters = [0, 0]\<rparr>"

definition example_input :: "rat FImGuiInputState" where
  "example_input =
     \<lparr>HasMousePointer = True, GetMousePosition = (100, 200), GetMouseWheelDelta = 3,
      IsControlDown = True, IsShiftDown = False, IsAltDown = True,
      GetKeys = [True, True, True, False],
      GetKeysUpdateRange = \<lparr>GetBegin = 1, GetEnd = 3\<rparr>,
      GetMouseButtons = [False, True],
      GetMouseButtonsUpdateRange = \<lparr>GetBegin = 0, GetEnd = 0\<rparr>,
      GetCharactersNum = 0, GetCharacters = [0, 0]\<rparr>"

definition example_draw_list :: "rat ImDrawList" where
  "example_draw_list =
     \<lparr>CmdBuffer = [\<lparr>ElemCount = 3, ClipRect = (0, 0, 10, 10), TextureId = 1\<rparr>,
                   \<lparr>ElemCount = 0, ClipRect = (0, 0, 10, 10), TextureId = 0\<rparr>,
                   \<lparr>ElemCount = 2, ClipRect = (5, 5, 20, 20), TextureId = 2\<rparr>],
      IdxBuffer = [0, 1, 2, 2, 1],
      VtxBuffer = []\<rparr>"

definition example_captured :: "rat FImGuiDrawList" where
  "example_captured = fst (TransferDrawData FImGuiDrawList_default example_draw_list)"

definition example_library :: "rat ImGui" where
  "example_library =
     \<lparr>CreateContext = length,
      GetIO = (\<lambda>history. example_IO),
      GetDrawData = (\<lambda>history. Some \<lparr>CmdLists = [example_draw_list], CmdListsCount = 1\<rparr>),
      IsAnyItemActive = (\<lambda>history. True),
      GetMouseCursor = (\<lambda>history. ImGuiMouseCursor_Hand)\<rparr>"

definition example_library_idle :: "rat ImGui" where
  "example_library_idle =
     example_library\<lparr>GetDrawData := (\<lambda>history. Some \<lparr>CmdLists = [], CmdListsCount = 0\<rparr>)\<rparr>"

definition example_proxy :: "rat FImGuiContextProxy" where
  "example_proxy =
     \<lparr>Context = Some (HeapContext 0), MouseCursor = EMouseCursor_None, bHasActiveItem = False,
      bIsFrameStarted = True, bIsDrawCalled = False, LastFrameNumber = 3,
      DrawEvent = [1, 2], SharedDrawEvent = Some [9], InputState = None,
      DrawLists = [FImGuiDrawList_default\<lparr>ImGuiIndexBuffer := [7, 7, 7]\<rparr>,
                   FImGuiDrawList_default],
      Name = ''A'', IniFilename = ''Saved/ImGui/A.ini'', GImGui = None, calls = []\<rparr>"

definition example_input_clean :: "rat FImGuiInputState" where
  "example_input_clean = example_input\<lparr>GetKeysUpdateRange := \<lparr>GetBegin = 0, GetEnd = 0\<rparr>\<rparr>"

definition example_proxy_bound :: "rat FImGuiContextProxy" where
  "example_proxy_bound =
     example_proxy\<lparr>bIsFrameStarted := False, InputState := Some example_input_clean\<rparr>"

definition example_short_list :: "rat ImDrawList" where
  "example_short_list =
     \<lparr>CmdBuffer = [\<lparr>ElemCount = 2, ClipRect = (0, 0, 10, 10), TextureId = 1\<rparr>],
      IdxBuffer = [0, 1, 2],
      VtxBuffer = []\<rparr>"

definition example_short_captured :: "rat FImGuiDrawList" where
  "example_short_captured = fst (TransferDrawData FImGuiDrawList_default example_short_list)"

section \<open>Mouse button and key indices\<close>

lemma GetMouseIndex_buttons:
  "GetMouseIndex EKeys_LeftMouseButton = 0"
  "GetMouseIndex EKeys_RightMouseButton = 1"
  "GetMouseIndex EKeys_MiddleMouseButton = 2"
  "GetMouseIndex EKeys_ThumbMouseButton = 3"
  "GetMouseIndex EKeys_ThumbMouseButton2 = 4"
  by (simp_all add: GetMouseIndex_def EKeys_LeftMouseButton_def EKeys_MiddleMouseButton_def EKeys_RightMouseButton_def
      EKeys_ThumbMouseButton_def EKeys_ThumbMouseButton2_def)

lemma GetMouseIndex_other:
  "Key \<notin> {EKeys_LeftMouseButton, EKeys_RightMouseButton, EKeys_MiddleMouseButton,
            EKeys_ThumbMouseButton, EKeys_ThumbMouseButton2}
   \<Longrightarrow> GetMouseIndex Key = - 1"
  by (simp add: GetMouseIndex_def)

lemma minus_one_u32: "(- 1 :: 32 word) = 0xFFFFFFFF" "unat (- 1 :: 32 word) = 4294967295"
  by (simp_all add: unsigned_minus_1_eq_mask mask_eq_exp_minus_1)

lemma GetKeyIndex_no_codes:
  "GetCodesFromKey H Key = (None, None) \<Longrightarrow> GetKeyIndex H Key = Inl CheckFailed"
  by (simp add: GetKeyIndex_def)

text \<open>
  C10. The five mouse buttons have the indices 0 (left), 1 (right), 2 (middle), 3 (thumb)
  and 4 (second thumb). Any other key gives \<open>-1\<close> as an unsigned 32-bit value, which is
  \<open>0xFFFFFFFF\<close>, as a plain result with no check; the key-index lookup of a key that
  has neither a key code nor a character code is a failed check instead.
\<close>

theorem GetMouseIndex_table:
  "GetMouseIndex EKeys_LeftMouseButton = 0
   \<and> GetMouseIndex EKeys_RightMouseButton = 1
   \<and> GetMouseIndex EKeys_MiddleMouseButton = 2
   \<and> GetMouseIndex EKeys_ThumbMouseButton = 3
   \<and> GetMouseIndex EKeys_ThumbMouseButton2 = 4
   \<and> (\<forall>Key. Key \<notin> {EKeys_LeftMouseButton, EKeys_RightMouseButton, EKeys_MiddleMouseButton,
                    EKeys_ThumbMouseButton, EKeys_ThumbMouseButton2}
         \<longrightarrow> GetMouseIndex Key = - 1 \<and> GetMouseIndex Key = 0xFFFFFFFF
             \<and> unat (GetMouseIndex Key) = 4294967295)
   \<and> (\<forall>H Key. GetCodesFromKey H Key = (None, None)
         \<longrightarrow> GetKeyIndex H Key = Inl CheckFailed)"
proof -
  have other: "GetMouseIndex Key = - 1 \<and> GetMouseIndex Key = 0xFFFFFFFF
      \<and> unat (GetMouseIndex Key) = 4294967295"
    if "Key \<notin> {EKeys_LeftMouseButton, EKeys_RightMouseButton, EKeys_MiddleMouseButton,
            EKeys_ThumbMouseButton, EKeys_ThumbMouseButton2}" for Key
    using GetMouseIndex_other [OF that] minus_one_u32 by simp
  then have A: "\<forall>Key. Key \<notin> {EKeys_LeftMouseButton, EKeys_RightMouseButton,
      EKeys_MiddleMouseButton, EKeys_ThumbMouseButton, EKeys_ThumbMouseButton2}
    \<longrightarrow> GetMouseIndex Key = - 1 \<and> GetMouseIndex Key = 0xFFFFFFFF
        \<and> unat (GetMouseIndex Key) = 4294967295"
    by (intro allI impI)
  have B: "\<forall>H Key. GetCodesFromKey H Key = (None, None)
         \<longrightarrow> GetKeyIndex H Key = Inl CheckFailed"
    by (intro allI impI) (rule GetKeyIndex_no_codes)
  show ?thesis
    by (rule conjI GetMouseIndex_buttons A B)+
qed

theorem GetMouseIndex_table_witness:
  "FKey ''SpaceBar'' \<notin> {EKeys_LeftMouseButton, EKeys_RightMouseButton, EKeys_MiddleMouseButton,
                    EKeys_ThumbMouseButton, EKeys_ThumbMouseButton2}
   \<and> GetMouseIndex (FKey ''SpaceBar'') = 0xFFFFFFFF
   \<and> GetCodesFromKey example_host_no_codes (FKey ''SpaceBar'') = (None, None)
   \<and> GetKeyIndex example_host_no_codes (FKey ''SpaceBar'') = Inl CheckFailed"
proof -
  let ?K = "FKey ''SpaceBar''"
  have k: "?K \<notin> {EKeys_LeftMouseButton, EKeys_RightMouseButton,
      EKeys_MiddleMouseButton, EKeys_ThumbMouseButton, EKeys_ThumbMouseButton2}"
    by (simp add: EKeys_LeftMouseButton_def EKeys_MiddleMouseButton_def
        EKeys_RightMouseButton_def EKeys_ThumbMouseButton_def EKeys_ThumbMouseButton2_def)
  have m: "GetMouseIndex ?K = 0xFFFFFFFF"
    using GetMouseIndex_table [THEN conjunct2, THEN conjunct2, THEN conjunct2, THEN conjunct2,
      THEN conjunct2, THEN conjunct1, rule_format, OF k] by (rule conjunct2 [THEN conjunct1])
  have c: "GetCodesFromKey example_host_no_codes ?K = (None, None)"
    by (simp add: example_host_no_codes_def)
  have g: "GetKeyIndex example_host_no_codes ?K = Inl CheckFailed"
    by (rule GetMouseIndex_table [THEN conjunct2, THEN conjunct2, THEN conjunct2, THEN conjunct2,
      THEN conjunct2, THEN conjunct2, rule_format, OF c])
  from k m c g show ?thesis by (intro conjI)
qed

section \<open>Consuming the input state\<close>

lemma fold_store_length:
  "length (fold (\<lambda>i D. D[i := Src ! i]) js Dst) = length Dst"
  by (induction js arbitrary: Dst) simp_all

lemma fold_store_nth:
  "j < length Dst \<Longrightarrow>
   fold (\<lambda>i D. D[i := Src ! i]) js Dst ! j = (if j \<in> set js then Src ! j else Dst ! j)"
proof (induction js arbitrary: Dst)
  case Nil
  then show ?case by simp
next
  case (Cons a js)
  then show ?case by (simp add: nth_list_update)
qed

lemma Copy_Range_length: "length (Copy_Range Src Dst R) = length Dst"
  by (simp add: Copy_Range_def fold_store_length)

lemma Copy_Range_nth:
  "j < length Dst \<Longrightarrow>
   Copy_Range Src Dst R ! j = (if GetBegin R \<le> j \<and> j < GetEnd R then Src ! j else Dst ! j)"
  by (simp add: Copy_Range_def fold_store_nth)

lemma Copy_Range_empty: "IsEmpty R \<Longrightarrow> Copy_Range Src Dst R = Dst"
  by (simp add: Copy_Range_def IsEmpty_def)

lemma CopyInput_result:
  "GetKeyIndices H CopyInput_statics = Inr Codes \<Longrightarrow>
   CopyInput H IO S =
     Inr (IO\<lparr>MouseDrawCursor := HasMousePointer S,
             MousePos := GetMousePosition S,
             MouseWheel := MouseWheel IO + GetMouseWheelDelta S,
             KeyCtrl := IsControlDown S,
             KeyShift := IsShiftDown S,
             KeyAlt := IsAltDown S,
             KeySuper := False,
             KeysDown := Copy_Range (GetKeys S) (KeysDown IO) (GetKeysUpdateRange S),
             MouseDown := Copy_Range (GetMouseButtons S) (MouseDown IO)
                            (GetMouseButtonsUpdateRange S),
             InputCharacters := (if GetCharactersNum S > 0 then GetCharacters S
                                 else InputCharacters IO)\<rparr>)"
  by (simp add: CopyInput_def Let_def Copy_def Copy_Range_empty)

text \<open>
  C5. With well-formed dirty ranges (inside the arrays, begin not after end), consuming
  an input state writes the keys and the mouse buttons exactly at the indices of their
  dirty range, from the input state, and leaves every other entry as it was; with an
  empty range the array is untouched. The wheel delta is added to the value the input
  block already holds. The mouse position, the pointer flag and the ctrl, shift and alt
  flags are those of the input state, whatever the ranges. \<^verbatim>\<open>BeginFrame\<close>, with no
  frame started and an input state bound, stores exactly this block before it starts the
  library's frame.
\<close>

theorem CopyInput_consumes:
  fixes IO :: "('f::plus) ImGuiIO"
  assumes statics: "GetKeyIndices H CopyInput_statics = Inr Codes"
    and keys: "GetBegin (GetKeysUpdateRange S) \<le> GetEnd (GetKeysUpdateRange S)"
      "GetEnd (GetKeysUpdateRange S) \<le> length (KeysDown IO)"
      "length (GetKeys S) = length (KeysDown IO)"
    and buttons: "GetBegin (GetMouseButtonsUpdateRange S) \<le> GetEnd (GetMouseButtonsUpdateRange S)"
      "GetEnd (GetMouseButtonsUpdateRange S) \<le> length (MouseDown IO)"
      "length (GetMouseButtons S) = length (MouseDown IO)"
  shows "\<exists>IO'. CopyInput H IO S = Inr IO'
    \<and> length (KeysDown IO') = length (KeysDown IO)
    \<and> (\<forall>i < length (KeysDown IO). KeysDown IO' ! i =
          (if GetBegin (GetKeysUpdateRange S) \<le> i \<and> i < GetEnd (GetKeysUpdateRange S)
           then GetKeys S ! i else KeysDown IO ! i))
    \<and> (IsEmpty (GetKeysUpdateRange S) \<longrightarrow> KeysDown IO' = KeysDown IO)
    \<and> length (MouseDown IO') = length (MouseDown IO)
    \<and> (\<forall>i < length (MouseDown IO). MouseDown IO' ! i =
          (if GetBegin (GetMouseButtonsUpdateRange S) \<le> i
              \<and> i < GetEnd (GetMouseButtonsUpdateRange S)
           then GetMouseButtons S ! i else MouseDown IO ! i))
    \<and> (IsEmpty (GetMouseButtonsUpdateRange S) \<longrightarrow> MouseDown IO' = MouseDown IO)
    \<and> MouseWheel IO' = MouseWheel IO + GetMouseWheelDelta S
    \<and> MousePos IO' = GetMousePosition S
    \<and> MouseDrawCursor IO' = HasMousePointer S
    \<and> KeyCtrl IO' = IsControlDown S
    \<and> KeyShift IO' = IsShiftDown S
    \<and> KeyAlt IO' = IsAltDown S
    \<and> (\<forall>L DeltaSeconds s. \<not> bIsFrameStarted s \<and> InputState s = Some S
          \<and> (GetIO L (calls s))\<lparr>DeltaTime := DeltaSeconds\<rparr> = IO
        \<longrightarrow> BeginFrame H L DeltaSeconds s =
              Inr (s\<lparr>calls := calls s @ [IO_store IO', ImGui_NewFrame],
                     bIsFrameStarted := True, bIsDrawCalled := False\<rparr>))"
proof -
  let ?IO' = "IO\<lparr>MouseDrawCursor := HasMousePointer S,
             MousePos := GetMousePosition S,
             MouseWheel := MouseWheel IO + GetMouseWheelDelta S,
             KeyCtrl := IsControlDown S,
             KeyShift := IsShiftDown S,
             KeyAlt := IsAltDown S,
             KeySuper := False,
             KeysDown := Copy_Range (GetKeys S) (KeysDown IO) (GetKeysUpdateRange S),
             MouseDown := Copy_Range (GetMouseButtons S) (MouseDown IO)
                            (GetMouseButtonsUpdateRange S),
             InputCharacters := (if GetCharactersNum S > 0 then GetCharacters S
                                 else InputCharacters IO)\<rparr>"
  have r: "CopyInput H IO S = Inr ?IO'"
    by (rule CopyInput_result [OF statics])
  have b: "BeginFrame H L DeltaSeconds s =
              Inr (s\<lparr>calls := calls s @ [IO_store ?IO', ImGui_NewFrame],
                     bIsFrameStarted := True, bIsDrawCalled := False\<rparr>)"
    if "\<not> bIsFrameStarted s \<and> InputState s = Some S
          \<and> (GetIO L (calls s))\<lparr>DeltaTime := DeltaSeconds\<rparr> = IO" for L DeltaSeconds s
    using that r by (simp add: BeginFrame_def Let_def)
  show ?thesis
  proof (intro exI conjI allI impI)
    show "CopyInput H IO S = Inr ?IO'" by (rule r)
  qed (simp_all add: Copy_Range_length Copy_Range_nth Copy_Range_empty b)
qed

theorem CopyInput_consumes_witness:
  "GetKeyIndices example_host CopyInput_statics = Inr [11, 12, 9, 10, 7, 8]
   \<and> GetBegin (GetKeysUpdateRange example_input) \<le> GetEnd (GetKeysUpdateRange example_input)
   \<and> GetEnd (GetKeysUpdateRange example_input) \<le> length (KeysDown example_IO)
   \<and> length (GetKeys example_input) = length (KeysDown example_IO)
   \<and> GetBegin (GetMouseButtonsUpdateRange example_input)
        \<le> GetEnd (GetMouseButtonsUpdateRange example_input)
   \<and> GetEnd (GetMouseButtonsUpdateRange example_input) \<le> length (MouseDown example_IO)
   \<and> length (GetMouseButtons example_input) = length (MouseDown example_IO)
   \<and> (\<exists>IO'. CopyInput example_host example_IO example_input = Inr IO'
        \<and> KeysDown IO' = [False, True, True, True]
        \<and> MouseDown IO' = [True, False]
        \<and> MouseWheel IO' = 5
        \<and> MousePos IO' = (100, 200)
        \<and> MouseDrawCursor IO' \<and> KeyCtrl IO' \<and> \<not> KeyShift IO' \<and> KeyAlt IO')
   \<and> IsEmpty (GetKeysUpdateRange example_input_clean)
   \<and> IsEmpty (GetMouseButtonsUpdateRange example_input_clean)
   \<and> \<not> bIsFrameStarted example_proxy_bound
   \<and> InputState example_proxy_bound = Some example_input_clean
   \<and> (\<exists>IO'. CopyInput example_host example_IO example_input_clean = Inr IO'
        \<and> KeysDown IO' = KeysDown example_IO
        \<and> MouseDown IO' = MouseDown example_IO
        \<and> MouseWheel IO' = 5
        \<and> MousePos IO' = (100, 200)
        \<and> BeginFrame example_host example_library 0 example_proxy_bound =
            Inr (example_proxy_bound\<lparr>calls := [IO_store IO', ImGui_NewFrame],
                                     bIsFrameStarted := True, bIsDrawCalled := False\<rparr>))"
proof -
  have statics: "GetKeyIndices example_host CopyInput_statics = Inr [11, 12, 9, 10, 7, 8]"
    by (simp add: example_host_def CopyInput_statics_def GetKeyIndex_def)
  have keys: "GetBegin (GetKeysUpdateRange example_input) \<le> GetEnd (GetKeysUpdateRange example_input)"
      "GetEnd (GetKeysUpdateRange example_input) \<le> length (KeysDown example_IO)"
      "length (GetKeys example_input) = length (KeysDown example_IO)"
    by (simp_all add: example_input_def example_IO_def)
  have buttons: "GetBegin (GetMouseButtonsUpdateRange example_input)
        \<le> GetEnd (GetMouseButtonsUpdateRange example_input)"
      "GetEnd (GetMouseButtonsUpdateRange example_input) \<le> length (MouseDown example_IO)"
      "length (GetMouseButtons example_input) = length (MouseDown example_IO)"
    by (simp_all add: example_input_def example_IO_def)
  from CopyInput_consumes [OF statics keys buttons]
  obtain IO' where r: "CopyInput example_host example_IO example_input = Inr IO'"
    and k: "length (KeysDown IO') = length (KeysDown example_IO)"
      "\<forall>i < length (KeysDown example_IO). KeysDown IO' ! i =
          (if GetBegin (GetKeysUpdateRange example_input) \<le> i
              \<and> i < GetEnd (GetKeysUpdateRange example_input)
           then GetKeys example_input ! i else KeysDown example_IO ! i)"
    and m: "IsEmpty (GetMouseButtonsUpdateRange example_input)
          \<longrightarrow> MouseDown IO' = MouseDown example_IO"
    and rest: "MouseWheel IO' = MouseWheel example_IO + GetMouseWheelDelta example_input"
      "MousePos IO' = GetMousePosition example_input"
      "MouseDrawCursor IO' = HasMousePointer example_input"
      "KeyCtrl IO' = IsControlDown example_input"
      "KeyShift IO' = IsShiftDown example_input"
      "KeyAlt IO' = IsAltDown example_input"
    by (elim exE conjE)
  from k(2) have "KeysDown IO' ! 0 = False" "KeysDown IO' ! 1 = True"
    "KeysDown IO' ! 2 = True" "KeysDown IO' ! 3 = True"
    by (simp_all add: example_input_def example_IO_def)
  moreover from k(1) have "length (KeysDown IO') = 4"
    by (simp add: example_IO_def)
  ultimately have kd: "KeysDown IO' = [False, True, True, True]"
    by (simp add: list_eq_iff_nth_eq less_Suc_eq numeral_eq_Suc)
  from m have md: "MouseDown IO' = [True, False]"
    by (simp add: IsEmpty_def example_input_def example_IO_def)
  have vals: "MouseWheel IO' = 5" "MousePos IO' = (100, 200)" "MouseDrawCursor IO'"
      "KeyCtrl IO'" "\<not> KeyShift IO'" "KeyAlt IO'"
    using rest by (simp_all add: example_input_def example_IO_def)
  have first: "\<exists>IO'. CopyInput example_host example_IO example_input = Inr IO'
        \<and> KeysDown IO' = [False, True, True, True]
        \<and> MouseDown IO' = [True, False]
        \<and> MouseWheel IO' = 5
        \<and> MousePos IO' = (100, 200)
        \<and> MouseDrawCursor IO' \<and> KeyCtrl IO' \<and> \<not> KeyShift IO' \<and> KeyAlt IO'"
    using r kd md vals by (intro exI [of _ IO'] conjI)
  have keys2: "GetBegin (GetKeysUpdateRange example_input_clean)
        \<le> GetEnd (GetKeysUpdateRange example_input_clean)"
      "GetEnd (GetKeysUpdateRange example_input_clean) \<le> length (KeysDown example_IO)"
      "length (GetKeys example_input_clean) = length (KeysDown example_IO)"
    by (simp_all add: example_input_clean_def example_input_def example_IO_def)
  have buttons2: "GetBegin (GetMouseButtonsUpdateRange example_input_clean)
        \<le> GetEnd (GetMouseButtonsUpdateRange example_input_clean)"
      "GetEnd (GetMouseButtonsUpdateRange example_input_clean) \<le> length (MouseDown example_IO)"
      "length (GetMouseButtons example_input_clean) = length (MouseDown example_IO)"
    by (simp_all add: example_input_clean_def example_input_def example_IO_def)
  have e1: "IsEmpty (GetKeysUpdateRange example_input_clean)"
    and e2: "IsEmpty (GetMouseButtonsUpdateRange example_input_clean)"
    by (simp_all add: example_input_clean_def example_input_def IsEmpty_def)
  have ns: "\<not> bIsFrameStarted example_proxy_bound"
    and bound: "InputState example_proxy_bound = Some example_input_clean"
    by (simp_all add: example_proxy_bound_def)
  have io: "(GetIO example_library (calls example_proxy_bound))\<lparr>DeltaTime := 0\<rparr> = example_IO"
    by (simp add: example_library_def example_IO_def)
  from CopyInput_consumes [OF statics keys2 buttons2]
  obtain IO2 where r2: "CopyInput example_host example_IO example_input_clean = Inr IO2"
    and k2: "IsEmpty (GetKeysUpdateRange example_input_clean) \<longrightarrow> KeysDown IO2 = KeysDown example_IO"
    and m2: "IsEmpty (GetMouseButtonsUpdateRange example_input_clean)
          \<longrightarrow> MouseDown IO2 = MouseDown example_IO"
    and w2: "MouseWheel IO2 = MouseWheel example_IO + GetMouseWheelDelta example_input_clean"
    and p2: "MousePos IO2 = GetMousePosition example_input_clean"
    and b2: "\<forall>L DeltaSeconds s. \<not> bIsFrameStarted s \<and> InputState s = Some example_input_clean
          \<and> (GetIO L (calls s))\<lparr>DeltaTime := DeltaSeconds\<rparr> = example_IO
        \<longrightarrow> BeginFrame example_host L DeltaSeconds s =
              Inr (s\<lparr>calls := calls s @ [IO_store IO2, ImGui_NewFrame],
                     bIsFrameStarted := True, bIsDrawCalled := False\<rparr>)"
    by (elim exE conjE)
  from k2 e1 have kk: "KeysDown IO2 = KeysDown example_IO" by (rule mp)
  from m2 e2 have mm: "MouseDown IO2 = MouseDown example_IO" by (rule mp)
  from w2 p2 have v2: "MouseWheel IO2 = 5" "MousePos IO2 = (100, 200)"
    by (simp_all add: example_input_clean_def example_input_def example_IO_def)
  from b2 [THEN spec [where x = example_library], THEN spec [where x = 0],
      THEN spec [where x = example_proxy_bound]] ns bound io
  have "BeginFrame example_host example_library 0 example_proxy_bound =
      Inr (example_proxy_bound\<lparr>calls := calls example_proxy_bound @ [IO_store IO2, ImGui_NewFrame],
                               bIsFrameStarted := True, bIsDrawCalled := False\<rparr>)"
    by blast
  then have bf: "BeginFrame example_host example_library 0 example_proxy_bound =
      Inr (example_proxy_bound\<lparr>calls := [IO_store IO2, ImGui_NewFrame],
                               bIsFrameStarted := True, bIsDrawCalled := False\<rparr>)"
    by (simp add: example_proxy_bound_def example_proxy_def)
  have second: "\<exists>IO'. CopyInput example_host example_IO example_input_clean = Inr IO'
        \<and> KeysDown IO' = KeysDown example_IO
        \<and> MouseDown IO' = MouseDown example_IO
        \<and> MouseWheel IO' = 5
        \<and> MousePos IO' = (100, 200)
        \<and> BeginFrame example_host example_library 0 example_proxy_bound =
            Inr (example_proxy_bound\<lparr>calls := [IO_store IO', ImGui_NewFrame],
                                     bIsFrameStarted := True, bIsDrawCalled := False\<rparr>)"
    using r2 kk mm v2 bf by (intro exI [of _ IO2] conjI)
  from statics keys buttons first e1 e2 ns bound second show ?thesis
    by (intro conjI)
qed

section \<open>Emitting indices\<close>

lemma to_int32_small: "0 \<le> v \<Longrightarrow> v < 2147483648 \<Longrightarrow> to_int32 v = v"
  by (simp add: to_int32_def Let_def)

lemma sum_list_take_Suc:
  "k < length (ns :: nat list) \<Longrightarrow> sum_list (take (Suc k) ns) = sum_list (take k ns) + ns ! k"
  by (simp add: take_Suc_conv_app_nth)

lemma sum_list_take_le: "sum_list (take k (ns :: nat list)) \<le> sum_list ns"
proof -
  have "sum_list ns = sum_list (take k ns) + sum_list (drop k ns)"
    by (metis append_take_drop_id sum_list_append)
  then show ?thesis by simp
qed

lemma CopyIndexData_in_range:
  "0 \<le> StartIndex \<Longrightarrow> 0 \<le> Count
   \<Longrightarrow> StartIndex + Count \<le> int (length (ImGuiIndexBuffer This))
   \<Longrightarrow> CopyIndexData This StartIndex Count =
       Inr (take (nat Count) (drop (nat StartIndex) (ImGuiIndexBuffer This)))"
  by (simp add: CopyIndexData_def)

lemma CopyIndexData_beyond:
  "int (length (ImGuiIndexBuffer This)) < StartIndex + Count
   \<Longrightarrow> CopyIndexData This StartIndex Count = Inl CheckFailed"
  by (simp add: CopyIndexData_def)

text \<open>
  C7. A call of \<^verbatim>\<open>CopyIndexData\<close> whose start offset plus count exceeds the number of
  indices recorded is a failed check, so a fatal error and not a result. A call with a
  start offset and a count that are not negative and stay within that number returns
  exactly the indices at the positions \<open>[start, start + count)\<close> of the internal index
  buffer, in their order.
\<close>

theorem CopyIndexData_range:
  "(int (length (ImGuiIndexBuffer This)) < StartIndex + Count
      \<longrightarrow> CopyIndexData This StartIndex Count = Inl CheckFailed)
   \<and> (0 \<le> StartIndex \<and> 0 \<le> Count \<and> StartIndex + Count \<le> int (length (ImGuiIndexBuffer This))
      \<longrightarrow> (\<exists>Out. CopyIndexData This StartIndex Count = Inr Out
             \<and> length Out = nat Count
             \<and> (\<forall>i < nat Count. Out ! i = ImGuiIndexBuffer This ! (nat StartIndex + i))))"
proof (intro conjI impI)
  assume "int (length (ImGuiIndexBuffer This)) < StartIndex + Count"
  then show "CopyIndexData This StartIndex Count = Inl CheckFailed"
    by (rule CopyIndexData_beyond)
next
  assume a: "0 \<le> StartIndex \<and> 0 \<le> Count
    \<and> StartIndex + Count \<le> int (length (ImGuiIndexBuffer This))"
  let ?Out = "take (nat Count) (drop (nat StartIndex) (ImGuiIndexBuffer This))"
  from a have r: "CopyIndexData This StartIndex Count = Inr ?Out"
    by (simp add: CopyIndexData_in_range)
  from a have n: "nat StartIndex + nat Count \<le> length (ImGuiIndexBuffer This)"
    by linarith
  then have l: "length ?Out = nat Count"
    by simp
  from n have e: "\<forall>i < nat Count. ?Out ! i = ImGuiIndexBuffer This ! (nat StartIndex + i)"
    by simp
  from r l e show "\<exists>Out. CopyIndexData This StartIndex Count = Inr Out
             \<and> length Out = nat Count
             \<and> (\<forall>i < nat Count. Out ! i = ImGuiIndexBuffer This ! (nat StartIndex + i))"
    by (intro exI [of _ ?Out] conjI)
qed

lemma OnPaint_CopyIndexData_from:
  fixes DL :: "'f FImGuiDrawList"
  defines "ns \<equiv> map (\<lambda>C. unat (ElemCount C)) (ImGuiCommandBuffer DL)"
  assumes total: "sum_list ns = length (ImGuiIndexBuffer DL)"
    and small: "length (ImGuiIndexBuffer DL) < 2 ^ 31"
  shows "length (ImGuiCommandBuffer DL) - k = n \<Longrightarrow> k \<le> length (ImGuiCommandBuffer DL) \<Longrightarrow>
    \<exists>Ranges. OnPaint_CopyIndexData DL k (int (sum_list (take k ns))) = Inr Ranges
      \<and> map length Ranges = drop k ns
      \<and> concat Ranges = drop (sum_list (take k ns)) (ImGuiIndexBuffer DL)"
proof (induction n arbitrary: k)
  case 0
  then have k: "k = length (ImGuiCommandBuffer DL)" by simp
  then have "take k ns = ns" by (simp add: ns_def)
  with k total show ?case
    by (subst OnPaint_CopyIndexData.simps) (simp add: NumCommands_def ns_def)
next
  case (Suc n)
  then have k: "k < length (ImGuiCommandBuffer DL)" by simp
  let ?C = "ImGuiCommandBuffer DL ! k"
  let ?off = "sum_list (take k ns)"
  have nk: "ns ! k = unat (ElemCount ?C)" using k by (simp add: ns_def)
  have step: "sum_list (take (Suc k) ns) = ?off + unat (ElemCount ?C)"
    using k by (simp add: sum_list_take_Suc ns_def)
  have "sum_list (take (Suc k) ns) \<le> sum_list ns" by (rule sum_list_take_le)
  with step total have le: "?off + unat (ElemCount ?C) \<le> length (ImGuiIndexBuffer DL)"
    by simp
  have u: "uint (ElemCount ?C) = int (unat (ElemCount ?C))"
    by (rule uint_nat)
  from small have small': "length (ImGuiIndexBuffer DL) < 2147483648"
    by simp
  have c31: "uint (ElemCount ?C) < 2147483648"
    using le small' u by linarith
  have c0: "0 \<le> uint (ElemCount ?C)"
    by simp
  have o31: "int ?off + uint (ElemCount ?C) < 2147483648"
    using le small' u by linarith
  have o0: "0 \<le> int ?off + uint (ElemCount ?C)"
    by simp
  have conv: "to_int32 (uint (ElemCount ?C)) = uint (ElemCount ?C)"
    by (rule to_int32_small [OF c0 c31])
  have off: "to_int32 (int ?off + uint (ElemCount ?C)) = int (sum_list (take (Suc k) ns))"
    using to_int32_small [OF o0 o31] step by simp
  have cmd: "GetCommand DL k = Inr \<lparr>NumElements = ElemCount ?C,
      ClippingRect = ToSlateRect (ClipRect ?C), TextureIndex = ToTextureIndex (TextureId ?C)\<rparr>"
    using k by (simp add: GetCommand_def Let_def)
  have le': "int ?off + uint (ElemCount ?C) \<le> int (length (ImGuiIndexBuffer DL))"
    using le u by linarith
  have copy: "CopyIndexData DL (int ?off) (uint (ElemCount ?C)) =
      Inr (take (unat (ElemCount ?C)) (drop ?off (ImGuiIndexBuffer DL)))"
    using le' by (simp add: CopyIndexData_def)
  from Suc.prems have "length (ImGuiCommandBuffer DL) - Suc k = n" "Suc k \<le> length (ImGuiCommandBuffer DL)"
    by simp_all
  from Suc.IH [OF this] obtain Rest where
    rest: "OnPaint_CopyIndexData DL (Suc k) (int (sum_list (take (Suc k) ns))) = Inr Rest"
    and lens: "map length Rest = drop (Suc k) ns"
    and cat: "concat Rest = drop (sum_list (take (Suc k) ns)) (ImGuiIndexBuffer DL)"
    by (elim exE conjE)
  let ?R = "take (unat (ElemCount ?C)) (drop ?off (ImGuiIndexBuffer DL))"
  have run: "OnPaint_CopyIndexData DL k (int ?off) = Inr (?R # Rest)"
    using k cmd copy rest
    by (subst OnPaint_CopyIndexData.simps) (simp add: NumCommands_def conv off)
  have kn: "k < length ns"
    using k by (simp add: ns_def)
  have len: "length ?R = ns ! k"
    using le nk by simp
  have l2: "map length (?R # Rest) = drop k ns"
    using lens len Cons_nth_drop_Suc [OF kn] by simp
  have c2: "concat (?R # Rest) = drop ?off (ImGuiIndexBuffer DL)"
  proof -
    have "drop (sum_list (take (Suc k) ns)) (ImGuiIndexBuffer DL) =
        drop (unat (ElemCount ?C)) (drop ?off (ImGuiIndexBuffer DL))"
      by (simp only: step drop_drop add.commute)
    with cat have "concat Rest = drop (unat (ElemCount ?C)) (drop ?off (ImGuiIndexBuffer DL))"
      by (rule trans)
    then show ?thesis
      by (simp only: concat.simps append_take_drop_id)
  qed
  from run l2 c2 show ?case by (intro exI [of _ "?R # Rest"] conjI)
qed

lemma nth_of_concat:
  "map length Rs = ns \<Longrightarrow> concat Rs = xs \<Longrightarrow> i < length Rs
   \<Longrightarrow> Rs ! i = take (ns ! i) (drop (sum_list (take i ns)) xs)"
proof (induction Rs arbitrary: ns xs i)
  case Nil
  then show ?case by simp
next
  case (Cons R Rs)
  from Cons.prems(1) obtain ns' where ns: "ns = length R # ns'" and ns': "map length Rs = ns'"
    by auto
  from Cons.prems(2) have xs: "xs = R @ concat Rs" by simp
  show ?case
  proof (cases i)
    case 0
    then show ?thesis by (simp add: ns xs)
  next
    case (Suc j)
    with Cons.prems(3) have "j < length Rs" by simp
    from Cons.IH [OF ns' refl this]
    show ?thesis by (simp add: Suc ns xs)
  qed
qed

lemma GetCommand_counts:
  "map (\<lambda>CommandNb. case GetCommand DL CommandNb of
                        Inr C \<Rightarrow> unat (NumElements C) | Inl e \<Rightarrow> 0)
     [0 ..< nat (NumCommands DL)]
   = map (\<lambda>C. unat (ElemCount C)) (ImGuiCommandBuffer DL)"
proof -
  have "map (\<lambda>CommandNb. case GetCommand DL CommandNb of
                        Inr C \<Rightarrow> unat (NumElements C) | Inl e \<Rightarrow> 0)
     [0 ..< length (ImGuiCommandBuffer DL)]
   = map (\<lambda>i. unat (ElemCount (ImGuiCommandBuffer DL ! i))) [0 ..< length (ImGuiCommandBuffer DL)]"
    by (rule map_cong) (simp_all add: GetCommand_def Let_def)
  also have "\<dots> = map (\<lambda>C. unat (ElemCount C)) (map ((!) (ImGuiCommandBuffer DL))
      [0 ..< length (ImGuiCommandBuffer DL)])"
    by (simp only: map_map comp_def)
  also have "\<dots> = map (\<lambda>C. unat (ElemCount C)) (ImGuiCommandBuffer DL)"
    by (simp only: map_nth)
  finally show ?thesis by (simp add: NumCommands_def)
qed

text \<open>
  C6. Capture a draw list of the library, and let the element counts of the captured
  commands add up to the size \<open>K\<close> of the captured index buffer (the size is an
  \<^verbatim>\<open>int\<close>, so below \<open>2^31\<close>). Then the loop of \<^verbatim>\<open>OnPaint\<close> fails no check: for each
  command it copies the indices from where the previous command ended, as many as the
  command has elements, and the ranges it yields, put end to end, are the index sequence
  of the library's list. Capture transfers the commands and the indices as the
  library hands them over, so the sum is a condition on the list and not a consequence of
  the code: a list with one command of two elements over three indices is captured as
  it is, and the loop then yields the first two indices only.
\<close>

theorem OnPaint_index_round_trip:
  fixes Src :: "'f ImDrawList"
  assumes captured: "DrawList = fst (TransferDrawData Old Src)"
    and total: "sum_list (map (\<lambda>CommandNb. case GetCommand DrawList CommandNb of
                                    Inr C \<Rightarrow> unat (NumElements C) | Inl e \<Rightarrow> 0)
                         [0 ..< nat (NumCommands DrawList)])
                = length (ImGuiIndexBuffer DrawList)"
    and small: "length (ImGuiIndexBuffer DrawList) < 2 ^ 31"
  shows "ImGuiIndexBuffer DrawList = IdxBuffer Src
    \<and> (\<exists>Ranges. OnPaint_CopyIndexData DrawList 0 0 = Inr Ranges
          \<and> length Ranges = nat (NumCommands DrawList)
          \<and> (\<forall>i < length Ranges. \<exists>C. GetCommand DrawList i = Inr C
                \<and> length (Ranges ! i) = unat (NumElements C)
                \<and> CopyIndexData DrawList (int (sum_list (map length (take i Ranges))))
                     (int (unat (NumElements C))) = Inr (Ranges ! i))
          \<and> concat Ranges = IdxBuffer Src)"
proof -
  let ?ns = "map (\<lambda>C. unat (ElemCount C)) (ImGuiCommandBuffer DrawList)"
  have ib: "ImGuiIndexBuffer DrawList = IdxBuffer Src"
    by (simp add: captured TransferDrawData_def)
  from total have t: "sum_list ?ns = length (ImGuiIndexBuffer DrawList)"
    by (simp only: GetCommand_counts)
  from OnPaint_CopyIndexData_from [OF t small, of 0 "length (ImGuiCommandBuffer DrawList)"]
  obtain Ranges where run: "OnPaint_CopyIndexData DrawList 0 0 = Inr Ranges"
    and lens: "map length Ranges = ?ns"
    and cat: "concat Ranges = ImGuiIndexBuffer DrawList"
    by auto
  from lens have n: "length Ranges = nat (NumCommands DrawList)"
    by (metis length_map NumCommands_def nat_int)
  have each: "\<exists>C. GetCommand DrawList i = Inr C
                \<and> length (Ranges ! i) = unat (NumElements C)
                \<and> CopyIndexData DrawList (int (sum_list (map length (take i Ranges))))
                     (int (unat (NumElements C))) = Inr (Ranges ! i)"
    if i: "i < length Ranges" for i
  proof -
    from i lens have ic: "i < length (ImGuiCommandBuffer DrawList)"
      by (metis length_map)
    let ?C = "\<lparr>NumElements = ElemCount (ImGuiCommandBuffer DrawList ! i),
        ClippingRect = ToSlateRect (ClipRect (ImGuiCommandBuffer DrawList ! i)),
        TextureIndex = ToTextureIndex (TextureId (ImGuiCommandBuffer DrawList ! i))\<rparr>"
    have gc: "GetCommand DrawList i = Inr ?C"
      using ic by (simp add: GetCommand_def Let_def)
    have ni: "?ns ! i = unat (NumElements ?C)"
      using ic by simp
    have r: "Ranges ! i = take (?ns ! i) (drop (sum_list (take i ?ns)) (ImGuiIndexBuffer DrawList))"
      by (rule nth_of_concat [OF lens cat i])
    have li: "length (Ranges ! i) = ?ns ! i"
      using i lens by (metis nth_map)
    have ti: "map length (take i Ranges) = take i ?ns"
      using lens by (metis take_map)
    have "sum_list (take (Suc i) ?ns) \<le> sum_list ?ns"
      by (rule sum_list_take_le)
    moreover have "i < length ?ns" using ic by simp
    ultimately have "sum_list (take i ?ns) + ?ns ! i \<le> length (ImGuiIndexBuffer DrawList)"
      using t by (simp only: sum_list_take_Suc)
    then have "int (sum_list (take i ?ns)) + int (?ns ! i) \<le> int (length (ImGuiIndexBuffer DrawList))"
      by (simp only: flip: of_nat_add)
    then have "CopyIndexData DrawList (int (sum_list (take i ?ns))) (int (?ns ! i))
        = Inr (take (?ns ! i) (drop (sum_list (take i ?ns)) (ImGuiIndexBuffer DrawList)))"
      by (simp add: CopyIndexData_def del: of_nat_add)
    then have "CopyIndexData DrawList (int (sum_list (take i ?ns))) (int (?ns ! i))
        = Inr (Ranges ! i)"
      by (simp only: r)
    then have cp: "CopyIndexData DrawList (int (sum_list (map length (take i Ranges))))
        (int (unat (NumElements ?C))) = Inr (Ranges ! i)"
      by (simp only: ti ni)
    from li ni have ln: "length (Ranges ! i) = unat (NumElements ?C)"
      by (rule trans)
    from gc ln cp show ?thesis by (intro exI [of _ ?C] conjI)
  qed
  from cat ib have cat': "concat Ranges = IdxBuffer Src" by (rule trans)
  from run n each cat' have "\<exists>Ranges. OnPaint_CopyIndexData DrawList 0 0 = Inr Ranges
          \<and> length Ranges = nat (NumCommands DrawList)
          \<and> (\<forall>i < length Ranges. \<exists>C. GetCommand DrawList i = Inr C
                \<and> length (Ranges ! i) = unat (NumElements C)
                \<and> CopyIndexData DrawList (int (sum_list (map length (take i Ranges))))
                     (int (unat (NumElements C))) = Inr (Ranges ! i))
          \<and> concat Ranges = IdxBuffer Src"
    by (intro exI [of _ Ranges] conjI allI impI)
  with ib show ?thesis by (intro conjI)
qed

theorem CopyIndexData_range_witness:
  "int (length (ImGuiIndexBuffer example_captured)) < 4 + 2
   \<and> CopyIndexData example_captured 4 2 = Inl CheckFailed
   \<and> (0::int) \<le> 3 \<and> (0::int) \<le> 2 \<and> 3 + 2 \<le> int (length (ImGuiIndexBuffer example_captured))
   \<and> CopyIndexData example_captured 3 2 = Inr [2, 1]
   \<and> [2, 1] = [ImGuiIndexBuffer example_captured ! 3, ImGuiIndexBuffer example_captured ! 4]"
proof -
  have len: "length (ImGuiIndexBuffer example_captured) = 5"
    and idx: "ImGuiIndexBuffer example_captured = [0, 1, 2, 2, 1]"
    by (simp_all add: example_captured_def TransferDrawData_def example_draw_list_def)
  have a: "int (length (ImGuiIndexBuffer example_captured)) < 4 + 2"
    by (simp add: len)
  have b: "(0::int) \<le> 3 \<and> (0::int) \<le> 2 \<and> 3 + 2 \<le> int (length (ImGuiIndexBuffer example_captured))"
    by (simp add: len)
  have fail: "CopyIndexData example_captured 4 2 = Inl CheckFailed"
    using CopyIndexData_range [of example_captured 4 2, THEN conjunct1] a by (rule mp)
  from CopyIndexData_range [of example_captured 3 2, THEN conjunct2, THEN mp, OF b]
  obtain Out where r: "CopyIndexData example_captured 3 2 = Inr Out"
    and l: "length Out = nat 2"
    and e: "\<forall>i < nat 2. Out ! i = ImGuiIndexBuffer example_captured ! (nat 3 + i)"
    by (elim exE conjE)
  from e have "Out ! 0 = ImGuiIndexBuffer example_captured ! 3"
    "Out ! 1 = ImGuiIndexBuffer example_captured ! 4"
    by simp_all
  with l have "Out = [2, 1]"
    by (cases Out; cases "tl Out") (auto simp: idx)
  with r have ok: "CopyIndexData example_captured 3 2 = Inr [2, 1]"
    by simp
  have v: "[2, 1] = [ImGuiIndexBuffer example_captured ! 3, ImGuiIndexBuffer example_captured ! 4]"
    by (simp add: idx)
  from a fail b ok v show ?thesis by (intro conjI) simp_all
qed

theorem OnPaint_index_round_trip_witness:
  "example_captured = fst (TransferDrawData FImGuiDrawList_default example_draw_list)
   \<and> sum_list (map (\<lambda>CommandNb. case GetCommand example_captured CommandNb of
                                  Inr C \<Rightarrow> unat (NumElements C) | Inl e \<Rightarrow> 0)
                [0 ..< nat (NumCommands example_captured)])
       = length (ImGuiIndexBuffer example_captured)
   \<and> length (ImGuiIndexBuffer example_captured) < 2 ^ 31
   \<and> OnPaint_CopyIndexData example_captured 0 0 = Inr [[0, 1, 2], [], [2, 1]]
   \<and> concat [[0, 1, 2], [], [2, 1]] = IdxBuffer example_draw_list"
proof -
  have captured: "example_captured = fst (TransferDrawData FImGuiDrawList_default example_draw_list)"
    by (rule example_captured_def)
  have total: "sum_list (map (\<lambda>CommandNb. case GetCommand example_captured CommandNb of
                                  Inr C \<Rightarrow> unat (NumElements C) | Inl e \<Rightarrow> 0)
                [0 ..< nat (NumCommands example_captured)])
       = length (ImGuiIndexBuffer example_captured)"
    by (simp only: GetCommand_counts)
       (simp add: example_captured_def TransferDrawData_def example_draw_list_def)
  have small: "length (ImGuiIndexBuffer example_captured) < 2 ^ 31"
    by (simp add: example_captured_def TransferDrawData_def example_draw_list_def)
  from OnPaint_index_round_trip [OF captured total small]
  obtain Ranges where run: "OnPaint_CopyIndexData example_captured 0 0 = Inr Ranges"
    and cat: "concat Ranges = IdxBuffer example_draw_list"
    by (elim exE conjE)
  have ev: "OnPaint_CopyIndexData example_captured 0 0 = Inr [[0, 1, 2], [], [2, 1]]"
    by code_simp
  with run have "Ranges = [[0, 1, 2], [], [2, 1]]" by simp
  with cat have c: "concat [[0, 1, 2], [], [2, 1]] = IdxBuffer example_draw_list" by simp
  from captured total small ev c show ?thesis by (intro conjI)
qed

theorem OnPaint_index_round_trip_counterexample:
  "NumCommands example_short_captured = 1
   \<and> GetCommand example_short_captured 0 =
       Inr \<lparr>NumElements = 2, ClippingRect = (0, 0, 10, 10), TextureIndex = 1\<rparr>
   \<and> ImGuiIndexBuffer example_short_captured = [0, 1, 2]
   \<and> unat (2 :: 32 word) \<noteq> length (ImGuiIndexBuffer example_short_captured)
   \<and> OnPaint_CopyIndexData example_short_captured 0 0 = Inr [[0, 1]]
   \<and> concat [[0, 1]] \<noteq> ImGuiIndexBuffer example_short_captured"
proof -
  have n: "NumCommands example_short_captured = 1"
    by (simp add: NumCommands_def example_short_captured_def TransferDrawData_def
        example_short_list_def)
  have g: "GetCommand example_short_captured 0 =
       Inr \<lparr>NumElements = 2, ClippingRect = (0, 0, 10, 10), TextureIndex = 1\<rparr>"
    by (simp add: GetCommand_def Let_def example_short_captured_def TransferDrawData_def
        example_short_list_def ToSlateRect_def ToTextureIndex_def)
  have i: "ImGuiIndexBuffer example_short_captured = [0, 1, 2]"
    by (simp add: example_short_captured_def TransferDrawData_def example_short_list_def)
  have u: "unat (2 :: 32 word) \<noteq> length (ImGuiIndexBuffer example_short_captured)"
    by (simp add: i)
  have r: "OnPaint_CopyIndexData example_short_captured 0 0 = Inr [[0, 1]]"
    by code_simp
  have c: "concat [[0, 1]] \<noteq> ImGuiIndexBuffer example_short_captured"
    by (simp add: i)
  from n g i u r c show ?thesis by (intro conjI)
qed

section \<open>The frame state machine\<close>

lemma SetAsCurrent_fields [simp]:
  "bIsFrameStarted (SetAsCurrent s) = bIsFrameStarted s"
  "bIsDrawCalled (SetAsCurrent s) = bIsDrawCalled s"
  "LastFrameNumber (SetAsCurrent s) = LastFrameNumber s"
  "Context (SetAsCurrent s) = Context s"
  "IniFilename (SetAsCurrent s) = IniFilename s"
  "Name (SetAsCurrent s) = Name s"
  "DrawLists (SetAsCurrent s) = DrawLists s"
  "InputState (SetAsCurrent s) = InputState s"
  "DrawEvent (SetAsCurrent s) = DrawEvent s"
  "SharedDrawEvent (SetAsCurrent s) = SharedDrawEvent s"
  "GImGui (SetAsCurrent s) = Context s"
  "calls (SetAsCurrent s) = calls s @ [ImGui_SetCurrentContext (Context s)]"
  by (simp_all add: SetAsCurrent_def)

lemma Draw_absorbed: "\<not> bIsFrameStarted s \<or> bIsDrawCalled s \<Longrightarrow> Draw H s = s"
  by (auto simp: Draw_def)

lemma Draw_active:
  "bIsFrameStarted s \<Longrightarrow> \<not> bIsDrawCalled s \<Longrightarrow>
   Draw H s = s\<lparr>bIsDrawCalled := True, GImGui := Context s, calls :=
     calls s @ [ImGui_SetCurrentContext (Context s)]
     @ (if 0 < DebugDrawOnWorldTick H
        then (case SharedDrawEvent s of
                Some Event \<Rightarrow> if IsBound Event then [SharedDrawEvent_Broadcast Event] else []
              | None \<Rightarrow> [])
             @ (if IsBound (DrawEvent s) then [DrawEvent_Broadcast (DrawEvent s)] else [])
        else (if IsBound (DrawEvent s) then [DrawEvent_Broadcast (DrawEvent s)] else [])
             @ (case SharedDrawEvent s of
                  Some Event \<Rightarrow> if IsBound Event then [SharedDrawEvent_Broadcast Event] else []
                | None \<Rightarrow> []))\<rparr>"
  by (simp add: Draw_def SetAsCurrent_def Let_def split: option.split)

lemma Draw_shape:
  "\<exists>d g cs. Draw H s = s\<lparr>bIsDrawCalled := d, GImGui := g, calls := cs\<rparr>
     \<and> (bIsFrameStarted s \<longrightarrow> d)"
proof (cases "bIsFrameStarted s \<and> \<not> bIsDrawCalled s")
  case True
  then have "bIsFrameStarted s" "\<not> bIsDrawCalled s" by simp_all
  from Draw_active [OF this, of H] show ?thesis by blast
next
  case False
  then have "Draw H s = s\<lparr>bIsDrawCalled := bIsDrawCalled s, GImGui := GImGui s, calls := calls s\<rparr>"
    by (simp add: Draw_absorbed)
  with False show ?thesis by blast
qed

lemma Draw_fields [simp]:
  "bIsFrameStarted (Draw H s) = bIsFrameStarted s"
  "LastFrameNumber (Draw H s) = LastFrameNumber s"
  "Context (Draw H s) = Context s"
  "IniFilename (Draw H s) = IniFilename s"
  "Name (Draw H s) = Name s"
  "DrawLists (Draw H s) = DrawLists s"
  "InputState (Draw H s) = InputState s"
proof -
  from Draw_shape [of H s] obtain d g cs
    where "Draw H s = s\<lparr>bIsDrawCalled := d, GImGui := g, calls := cs\<rparr>" by blast
  then show "bIsFrameStarted (Draw H s) = bIsFrameStarted s"
    "LastFrameNumber (Draw H s) = LastFrameNumber s"
    "Context (Draw H s) = Context s"
    "IniFilename (Draw H s) = IniFilename s"
    "Name (Draw H s) = Name s"
    "DrawLists (Draw H s) = DrawLists s"
    "InputState (Draw H s) = InputState s"
    by simp_all
qed


lemma BeginFrame_absorbed: "bIsFrameStarted s \<Longrightarrow> BeginFrame H L DeltaSeconds s = Inr s"
  by (simp add: BeginFrame_def)

lemma EndFrame_absorbed: "\<not> bIsFrameStarted s \<Longrightarrow> EndFrame L s = s"
  by (simp add: EndFrame_def)

lemma TransferDrawData_fst:
  "fst (TransferDrawData This Src) = fst (TransferDrawData FImGuiDrawList_default Src)"
  by (simp add: TransferDrawData_def)

lemma SetNum_length: "length (SetNum NewNum Default Array) = NewNum"
  by (simp add: SetNum_def)

lemma transfer_loop:
  "k \<le> length (DrawLists s) \<Longrightarrow>
   fold (\<lambda>Index s.
           let (This, Src) = TransferDrawData (DrawLists s ! Index) (CmdLists D ! Index)
           in s\<lparr>DrawLists := (DrawLists s)[Index := This],
                calls := calls s @ [ImDrawList_store Index Src]\<rparr>)
     [0 ..< k] s
   = s\<lparr>DrawLists :=
         map (\<lambda>i. fst (TransferDrawData FImGuiDrawList_default (CmdLists D ! i))) [0 ..< k]
         @ drop k (DrawLists s),
       calls := calls s
         @ map (\<lambda>i. ImDrawList_store i (snd (TransferDrawData FImGuiDrawList_default
                                                (CmdLists D ! i)))) [0 ..< k]\<rparr>"
proof (induction k)
  case 0
  show ?case by simp
next
  case (Suc k)
  then have k: "k < length (DrawLists s)" by simp
  then have d: "drop k (DrawLists s) = DrawLists s ! k # drop (Suc k) (DrawLists s)"
    by (simp add: Cons_nth_drop_Suc)
  from Suc have IH: "fold (\<lambda>Index s.
           let (This, Src) = TransferDrawData (DrawLists s ! Index) (CmdLists D ! Index)
           in s\<lparr>DrawLists := (DrawLists s)[Index := This],
                calls := calls s @ [ImDrawList_store Index Src]\<rparr>)
     [0 ..< k] s
   = s\<lparr>DrawLists :=
         map (\<lambda>i. fst (TransferDrawData FImGuiDrawList_default (CmdLists D ! i))) [0 ..< k]
         @ drop k (DrawLists s),
       calls := calls s
         @ map (\<lambda>i. ImDrawList_store i (snd (TransferDrawData FImGuiDrawList_default
                                                (CmdLists D ! i)))) [0 ..< k]\<rparr>"
    by simp
  show ?case
    by (simp only: upt_Suc_append [OF le0] fold_append comp_def IH)
       (simp add: d TransferDrawData_def list_update_append)
qed

lemma UpdateDrawData_lists:
  "0 < CmdListsCount D \<Longrightarrow>
   UpdateDrawData (Some D) s =
     s\<lparr>DrawLists :=
         map (\<lambda>i. fst (TransferDrawData FImGuiDrawList_default (CmdLists D ! i)))
           [0 ..< nat (CmdListsCount D)],
       calls := calls s
         @ map (\<lambda>i. ImDrawList_store i (snd (TransferDrawData FImGuiDrawList_default
                                                (CmdLists D ! i))))
             [0 ..< nat (CmdListsCount D)]\<rparr>"
  using transfer_loop [of "nat (CmdListsCount D)"
      "s\<lparr>DrawLists := SetNum (nat (CmdListsCount D)) FImGuiDrawList_default (DrawLists s)\<rparr>" D]
  by (simp add: UpdateDrawData_def SetNum_length)

lemma UpdateDrawData_none:
  "UpdateDrawData None s = s\<lparr>DrawLists := []\<rparr>"
  "CmdListsCount D \<le> 0 \<Longrightarrow> UpdateDrawData (Some D) s = s\<lparr>DrawLists := []\<rparr>"
  by (simp_all add: UpdateDrawData_def)

lemma UpdateDrawData_shape:
  "\<exists>dl cs. UpdateDrawData DrawData s = s\<lparr>DrawLists := dl, calls := calls s @ cs\<rparr>"
proof (cases DrawData)
  case None
  then have "UpdateDrawData DrawData s = s\<lparr>DrawLists := [], calls := calls s @ []\<rparr>"
    by (simp add: UpdateDrawData_none)
  then show ?thesis by blast
next
  case (Some D)
  show ?thesis
  proof (cases "0 < CmdListsCount D")
    case True
    from UpdateDrawData_lists [OF True, of s] Some show ?thesis by blast
  next
    case False
    then have "UpdateDrawData DrawData s = s\<lparr>DrawLists := [], calls := calls s @ []\<rparr>"
      by (simp add: UpdateDrawData_none Some)
    then show ?thesis by blast
  qed
qed

lemma EndFrame_shape:
  "bIsFrameStarted s \<Longrightarrow>
   \<exists>cs. EndFrame L s =
     s\<lparr>DrawLists := DrawLists (UpdateDrawData (GetDrawData L (calls s @ [ImGui_Render]))
                                (s\<lparr>calls := calls s @ [ImGui_Render]\<rparr>)),
       calls := calls s @ ImGui_Render # cs, bIsFrameStarted := False\<rparr>"
proof -
  assume st: "bIsFrameStarted s"
  let ?s = "s\<lparr>calls := calls s @ [ImGui_Render]\<rparr>"
  from UpdateDrawData_shape [of "GetDrawData L (calls s @ [ImGui_Render])" ?s]
  obtain dl cs where u: "UpdateDrawData (GetDrawData L (calls s @ [ImGui_Render])) ?s
      = ?s\<lparr>DrawLists := dl, calls := calls ?s @ cs\<rparr>"
    by blast
  have "EndFrame L s =
     s\<lparr>DrawLists := DrawLists (UpdateDrawData (GetDrawData L (calls s @ [ImGui_Render])) ?s),
       calls := calls s @ ImGui_Render # cs, bIsFrameStarted := False\<rparr>"
    using st by (simp add: EndFrame_def Let_def u)
  then show ?thesis by blast
qed

lemma EndFrame_fields [simp]:
  "\<not> bIsFrameStarted (EndFrame L s)"
  "bIsDrawCalled (EndFrame L s) = bIsDrawCalled s"
  "LastFrameNumber (EndFrame L s) = LastFrameNumber s"
  "Context (EndFrame L s) = Context s"
  "IniFilename (EndFrame L s) = IniFilename s"
  "Name (EndFrame L s) = Name s"
  "InputState (EndFrame L s) = InputState s"
proof -
  have "\<not> bIsFrameStarted (EndFrame L s) \<and> bIsDrawCalled (EndFrame L s) = bIsDrawCalled s
    \<and> LastFrameNumber (EndFrame L s) = LastFrameNumber s
    \<and> Context (EndFrame L s) = Context s
    \<and> IniFilename (EndFrame L s) = IniFilename s
    \<and> Name (EndFrame L s) = Name s
    \<and> InputState (EndFrame L s) = InputState s"
  proof (cases "bIsFrameStarted s")
    case True
    from EndFrame_shape [OF True, of L] obtain cs where "EndFrame L s =
      s\<lparr>DrawLists := DrawLists (UpdateDrawData (GetDrawData L (calls s @ [ImGui_Render]))
                                (s\<lparr>calls := calls s @ [ImGui_Render]\<rparr>)),
       calls := calls s @ ImGui_Render # cs, bIsFrameStarted := False\<rparr>"
      by blast
    then show ?thesis by simp
  next
    case False
    then show ?thesis by (simp add: EndFrame_absorbed)
  qed
  then show "\<not> bIsFrameStarted (EndFrame L s)"
    "bIsDrawCalled (EndFrame L s) = bIsDrawCalled s"
    "LastFrameNumber (EndFrame L s) = LastFrameNumber s"
    "Context (EndFrame L s) = Context s"
    "IniFilename (EndFrame L s) = IniFilename s"
    "Name (EndFrame L s) = Name s"
    "InputState (EndFrame L s) = InputState s"
    by simp_all
qed

lemma EndFrame_calls:
  "bIsFrameStarted s \<Longrightarrow> \<exists>Stores. calls (EndFrame L s) = calls s @ ImGui_Render # Stores"
proof -
  assume st: "bIsFrameStarted s"
  from EndFrame_shape [OF st, of L] obtain cs where "EndFrame L s =
      s\<lparr>DrawLists := DrawLists (UpdateDrawData (GetDrawData L (calls s @ [ImGui_Render]))
                                (s\<lparr>calls := calls s @ [ImGui_Render]\<rparr>)),
        calls := calls s @ ImGui_Render # cs, bIsFrameStarted := False\<rparr>"
    by blast
  then have "calls (EndFrame L s) = calls s @ ImGui_Render # cs" by simp
  then show ?thesis by blast
qed

lemma BeginFrame_result:
  "BeginFrame H L DeltaSeconds s = Inr s' \<Longrightarrow>
   bIsFrameStarted s'
   \<and> (\<not> bIsFrameStarted s \<longrightarrow>
        \<not> bIsDrawCalled s' \<and> (\<exists>IO. calls s' = calls s @ [IO_store IO, ImGui_NewFrame]))
   \<and> LastFrameNumber s' = LastFrameNumber s \<and> Context s' = Context s
   \<and> IniFilename s' = IniFilename s \<and> Name s' = Name s \<and> DrawLists s' = DrawLists s
   \<and> bHasActiveItem s' = bHasActiveItem s \<and> MouseCursor s' = MouseCursor s"
  by (auto simp: BeginFrame_def Let_def split: if_splits sum.splits option.splits)

lemma BeginFrame_returns:
  assumes "InputState s = None \<or> (\<exists>Codes. GetKeyIndices H CopyInput_statics = Inr Codes)"
  shows "\<exists>s'. BeginFrame H L DeltaSeconds s = Inr s'"
proof (cases "InputState s")
  case None
  then show ?thesis by (simp add: BeginFrame_def Let_def)
next
  case (Some InState)
  with assms obtain Codes where codes: "GetKeyIndices H CopyInput_statics = Inr Codes" by auto
  have "\<exists>IO'. CopyInput H ((GetIO L (calls s))\<lparr>DeltaTime := DeltaSeconds\<rparr>) InState = Inr IO'"
    by (rule exI) (rule CopyInput_result [OF codes])
  then obtain IO' where
    "CopyInput H ((GetIO L (calls s))\<lparr>DeltaTime := DeltaSeconds\<rparr>) InState = Inr IO'" ..
  with Some show ?thesis
    by (simp add: BeginFrame_def Let_def)
qed

lemma Tick_absorbed: "\<not> LastFrameNumber s < GFrameNumber H \<Longrightarrow> Tick H L DeltaSeconds s = Inr s"
  by (simp add: Tick_def)

lemma Tick_new_frame:
  "LastFrameNumber s < GFrameNumber H \<Longrightarrow>
   Tick H L DeltaSeconds s =
     (let s1 = SetAsCurrent (s\<lparr>LastFrameNumber := GFrameNumber H\<rparr>);
          s3 = (if bIsFrameStarted s then EndFrame L (Draw H s1) else s1);
          s4 = s3\<lparr>bHasActiveItem := IsAnyItemActive L (calls s3),
                  MouseCursor := ToSlateMouseCursor (GetMouseCursor L (calls s3))\<rparr>
      in BeginFrame H L DeltaSeconds s4)"
  by (simp add: Tick_def Let_def)

lemma Tick_new_frame_result:
  assumes new: "LastFrameNumber s < GFrameNumber H"
    and ret: "Tick H L DeltaSeconds s = Inr s'"
  shows "bIsFrameStarted s' \<and> \<not> bIsDrawCalled s' \<and> LastFrameNumber s' = GFrameNumber H
    \<and> Context s' = Context s \<and> IniFilename s' = IniFilename s \<and> Name s' = Name s"
proof -
  let ?s1 = "SetAsCurrent (s\<lparr>LastFrameNumber := GFrameNumber H\<rparr>)"
  let ?s3 = "if bIsFrameStarted s then EndFrame L (Draw H ?s1) else ?s1"
  let ?s4 = "?s3\<lparr>bHasActiveItem := IsAnyItemActive L (calls ?s3),
                  MouseCursor := ToSlateMouseCursor (GetMouseCursor L (calls ?s3))\<rparr>"
  from ret have b: "BeginFrame H L DeltaSeconds ?s4 = Inr s'"
    by (simp add: Tick_new_frame [OF new] Let_def)
  have n: "\<not> bIsFrameStarted ?s4" by simp
  have f: "LastFrameNumber ?s4 = GFrameNumber H" "Context ?s4 = Context s"
    "IniFilename ?s4 = IniFilename s" "Name ?s4 = Name s"
    by simp_all
  from BeginFrame_result [OF b] n f show ?thesis by simp
qed

lemma Tick_new_frame_returns:
  assumes new: "LastFrameNumber s < GFrameNumber H"
    and i: "InputState s = None \<or> (\<exists>Codes. GetKeyIndices H CopyInput_statics = Inr Codes)"
  shows "\<exists>s'. Tick H L DeltaSeconds s = Inr s'"
proof -
  let ?s1 = "SetAsCurrent (s\<lparr>LastFrameNumber := GFrameNumber H\<rparr>)"
  let ?s3 = "if bIsFrameStarted s then EndFrame L (Draw H ?s1) else ?s1"
  let ?s4 = "?s3\<lparr>bHasActiveItem := IsAnyItemActive L (calls ?s3),
                MouseCursor := ToSlateMouseCursor (GetMouseCursor L (calls ?s3))\<rparr>"
  have "InputState ?s4 = InputState s" by simp
  with i have "InputState ?s4 = None \<or> (\<exists>Codes. GetKeyIndices H CopyInput_statics = Inr Codes)"
    by simp
  from BeginFrame_returns [OF this] show ?thesis
    by (simp add: Tick_new_frame [OF new] Let_def)
qed

section \<open>Ticks within one frame\<close>

text \<open>
  C1. Two consecutive calls of \<^verbatim>\<open>Tick\<close> that read the same value of the global frame
  counter: whatever the state before the first and whatever the first did, the second
  returns the state it was given. Nothing of the proxy changes (not the frame-state
  flags, the captured cursor, the has-active-item snapshot or the draw lists) and nothing
  is added to the history of calls, so no draw callback runs and no frame is rendered.
\<close>

theorem Tick_same_frame_noop:
  assumes same: "GFrameNumber H' = GFrameNumber H"
    and first: "Tick H L DeltaSeconds s = Inr s1"
  shows "Tick H' L' DeltaSeconds' s1 = Inr s1"
proof (cases "LastFrameNumber s < GFrameNumber H")
  case True
  from Tick_new_frame_result [OF True first] have "LastFrameNumber s1 = GFrameNumber H'"
    by (simp add: same)
  then show ?thesis by (simp add: Tick_absorbed)
next
  case False
  with first have "s1 = s" by (simp add: Tick_absorbed)
  with False same show ?thesis by (simp add: Tick_absorbed)
qed

section \<open>Redundant calls\<close>

text \<open>
  C2. \<^verbatim>\<open>EndFrame\<close> with no frame started returns the state unchanged, draw lists
  included. \<^verbatim>\<open>Draw\<close> with no frame started, or with the draw-called flag set, returns
  the state unchanged, so it broadcasts to no listener. \<^verbatim>\<open>BeginFrame\<close> with a frame
  started returns the state unchanged.
\<close>

theorem redundant_calls_absorbed:
  "(\<not> bIsFrameStarted s \<longrightarrow> EndFrame L s = s)
   \<and> (\<not> bIsFrameStarted s \<or> bIsDrawCalled s \<longrightarrow> Draw H s = s)
   \<and> (bIsFrameStarted s \<longrightarrow> BeginFrame H L DeltaSeconds s = Inr s)"
  using EndFrame_absorbed [of s L] Draw_absorbed [of s H] BeginFrame_absorbed [of s H L DeltaSeconds]
  by blast

lemma Construct_result:
  assumes "FImGuiContextProxy_Construct H L InName InSharedDrawEvent history = Inr s"
  shows "bIsFrameStarted s \<and> \<not> bIsDrawCalled s \<and> LastFrameNumber s = 0
    \<and> Context s = Some (HeapContext (CreateContext L history))
    \<and> Name s = InName \<and> IniFilename s = GetIniFile H InName \<and> DrawLists s = []
    \<and> InputState s = None"
proof -
  from assms obtain s0 where b: "BeginFrame H L (1 / 60) s0 = Inr s"
    and s0: "\<not> bIsFrameStarted s0" "LastFrameNumber s0 = 0"
      "Context s0 = Some (HeapContext (CreateContext L history))" "Name s0 = InName"
      "IniFilename s0 = GetIniFile H InName" "DrawLists s0 = []" "InputState s0 = None"
    by (auto simp: FImGuiContextProxy_Construct_def Let_def SetAsCurrent_def split: sum.splits)
  from b s0 have "InputState s = None"
    by (auto simp: BeginFrame_def Let_def)
  with BeginFrame_result [OF b] s0 show ?thesis by simp
qed

lemma Construct_returns:
  assumes "GetKeyIndices H (map snd SetUnrealKeyMap_keys) = Inr Codes"
  shows "\<exists>s. FImGuiContextProxy_Construct H L InName InSharedDrawEvent history = Inr s"
proof -
  have "\<exists>s'. BeginFrame H L DeltaSeconds s = Inr s'" if "InputState s = None" for s DeltaSeconds
    using that by (simp add: BeginFrame_returns)
  then show ?thesis
    using assms
    by (simp add: FImGuiContextProxy_Construct_def Let_def SetAsCurrent_def SetUnrealKeyMap_def)
qed

lemma live_proxy_invariant:
  "live_proxy SavedDir s \<Longrightarrow>
   bIsFrameStarted s \<and> (\<exists>a. Context s = Some (HeapContext a))
   \<and> IniFilename s = Combine (Combine SavedDir ''ImGui'') (Name s @ ''.ini'')"
proof (induction rule: live_proxy.induct)
  case (constructed H L InName InSharedDrawEvent history s)
  from Construct_result [OF constructed(1)] constructed(2) show ?case
    by (simp add: GetIniFile_def GetSaveDirectory_def)
next
  case (ticked s H L DeltaSeconds s')
  show ?case
  proof (cases "LastFrameNumber s < GFrameNumber H")
    case True
    from Tick_new_frame_result [OF True ticked(2)] ticked.IH show ?thesis by simp
  next
    case False
    with ticked(2) have "s' = s" by (simp add: Tick_absorbed)
    with ticked.IH show ?thesis by simp
  qed
next
  case (drawn s H)
  then show ?case by simp
next
  case (input_state_set s SourceInputState)
  then show ?case by simp
next
  case (listeners_changed s Shared Own)
  then show ?case by simp
next
  case (library_used s Current others)
  then show ?case by simp
qed

lemma Destruct_created:
  "Context s = Some Created \<Longrightarrow>
   FImGuiContextProxy_Destruct s =
     s\<lparr>Context := None, GImGui := Some GImDefaultContext,
       calls := calls s @ [ImGui_SetCurrentContext (Some Created),
                           SaveIniSettingsToDisk (IniFilename s),
                           ImGui_DestroyContext Created,
                           ImGui_SetCurrentContext (Some GImDefaultContext)]\<rparr>"
  by (simp add: FImGuiContextProxy_Destruct_def SetAsCurrent_def Let_def)

section \<open>Order of the draw callbacks\<close>

text \<open>
  C8. A call of \<^verbatim>\<open>Draw\<close> that runs callbacks (a frame is started and the draw-called
  flag is not set) makes the context current and then broadcasts to the bound delegates in
  an order fixed by the value the console variable has at this call: the shared delegate
  first and the proxy's own second when the value is positive, the proxy's own first and
  the shared one second otherwise. The value is an argument of the call and no member of
  the proxy holds it; with both delegates bound, the value 1 gives the first order and the
  value 0 the second, from the same state.
\<close>

theorem Draw_broadcast_order:
  assumes "bIsFrameStarted s" and "\<not> bIsDrawCalled s"
  shows "calls (Draw H s) =
      calls s @ [ImGui_SetCurrentContext (Context s)]
      @ (if 0 < DebugDrawOnWorldTick H
         then (case SharedDrawEvent s of
                 Some Event \<Rightarrow> if IsBound Event then [SharedDrawEvent_Broadcast Event] else []
               | None \<Rightarrow> [])
              @ (if IsBound (DrawEvent s) then [DrawEvent_Broadcast (DrawEvent s)] else [])
         else (if IsBound (DrawEvent s) then [DrawEvent_Broadcast (DrawEvent s)] else [])
              @ (case SharedDrawEvent s of
                   Some Event \<Rightarrow> if IsBound Event then [SharedDrawEvent_Broadcast Event] else []
                 | None \<Rightarrow> []))
    \<and> (\<forall>Event. SharedDrawEvent s = Some Event \<and> IsBound Event \<and> IsBound (DrawEvent s) \<longrightarrow>
          calls (Draw (H\<lparr>DebugDrawOnWorldTick := 1\<rparr>) s) =
            calls s @ [ImGui_SetCurrentContext (Context s), SharedDrawEvent_Broadcast Event,
                       DrawEvent_Broadcast (DrawEvent s)]
        \<and> calls (Draw (H\<lparr>DebugDrawOnWorldTick := 0\<rparr>) s) =
            calls s @ [ImGui_SetCurrentContext (Context s), DrawEvent_Broadcast (DrawEvent s),
                       SharedDrawEvent_Broadcast Event])"
proof (intro conjI allI impI)
  show "calls (Draw H s) =
      calls s @ [ImGui_SetCurrentContext (Context s)]
      @ (if 0 < DebugDrawOnWorldTick H
         then (case SharedDrawEvent s of
                 Some Event \<Rightarrow> if IsBound Event then [SharedDrawEvent_Broadcast Event] else []
               | None \<Rightarrow> [])
              @ (if IsBound (DrawEvent s) then [DrawEvent_Broadcast (DrawEvent s)] else [])
         else (if IsBound (DrawEvent s) then [DrawEvent_Broadcast (DrawEvent s)] else [])
              @ (case SharedDrawEvent s of
                   Some Event \<Rightarrow> if IsBound Event then [SharedDrawEvent_Broadcast Event] else []
                 | None \<Rightarrow> []))"
    by (simp only: Draw_active [OF assms]) simp
next
  fix Event
  assume b: "SharedDrawEvent s = Some Event \<and> IsBound Event \<and> IsBound (DrawEvent s)"
  show "calls (Draw (H\<lparr>DebugDrawOnWorldTick := 1\<rparr>) s) =
            calls s @ [ImGui_SetCurrentContext (Context s), SharedDrawEvent_Broadcast Event,
                       DrawEvent_Broadcast (DrawEvent s)]"
    using b by (simp add: Draw_active [OF assms])
  show "calls (Draw (H\<lparr>DebugDrawOnWorldTick := 0\<rparr>) s) =
            calls s @ [ImGui_SetCurrentContext (Context s), DrawEvent_Broadcast (DrawEvent s),
                       SharedDrawEvent_Broadcast Event]"
    using b by (simp add: Draw_active [OF assms])
qed

section \<open>Capturing the draw lists\<close>

text \<open>
  C4. \<^verbatim>\<open>EndFrame\<close> with a frame started first has the library render, then stores the
  capture of the render data in the proxy and clears the frame-started flag. The draw
  lists it leaves do not depend on the draw lists the proxy held before. With no render
  data, or with a count of command lists that is not positive, the stored list is empty.
  With a positive count \<open>N\<close> (the length of the library's array) the stored list has
  \<open>N\<close> entries, and entry \<open>i\<close> is what \<^verbatim>\<open>TransferDrawData\<close> makes of the library's list
  \<open>i\<close>, whatever the entry held before.
\<close>

theorem EndFrame_replaces_draw_lists:
  assumes "bIsFrameStarted s"
  shows "\<not> bIsFrameStarted (EndFrame L s)
    \<and> (\<exists>Stores. calls (EndFrame L s) = calls s @ ImGui_Render # Stores)
    \<and> (\<forall>Previous. DrawLists (EndFrame L (s\<lparr>DrawLists := Previous\<rparr>)) = DrawLists (EndFrame L s))
    \<and> (case GetDrawData L (calls s @ [ImGui_Render]) of
          None \<Rightarrow> DrawLists (EndFrame L s) = []
        | Some D \<Rightarrow>
            (CmdListsCount D \<le> 0 \<longrightarrow> DrawLists (EndFrame L s) = [])
          \<and> (0 < CmdListsCount D \<and> CmdListsCount D = int (length (CmdLists D)) \<longrightarrow>
                length (DrawLists (EndFrame L s)) = length (CmdLists D)
              \<and> (\<forall>i < length (CmdLists D). \<forall>This.
                    DrawLists (EndFrame L s) ! i = fst (TransferDrawData This (CmdLists D ! i)))))"
proof -
  let ?dd = "GetDrawData L (calls s @ [ImGui_Render])"
  have dl: "DrawLists (EndFrame L (s\<lparr>DrawLists := P\<rparr>)) =
      DrawLists (UpdateDrawData ?dd (s\<lparr>DrawLists := P, calls := calls s @ [ImGui_Render]\<rparr>))" for P
    using assms by (simp add: EndFrame_def Let_def)
  have indep: "DrawLists (UpdateDrawData ?dd (s\<lparr>DrawLists := P, calls := calls s @ [ImGui_Render]\<rparr>))
      = DrawLists (UpdateDrawData ?dd (s\<lparr>calls := calls s @ [ImGui_Render]\<rparr>))" for P
  proof (cases ?dd)
    case None
    then show ?thesis by (simp add: UpdateDrawData_none)
  next
    case (Some D)
    then show ?thesis
      by (cases "0 < CmdListsCount D") (simp_all add: UpdateDrawData_none UpdateDrawData_lists)
  qed
  have dl0: "DrawLists (EndFrame L s) =
      DrawLists (UpdateDrawData ?dd (s\<lparr>calls := calls s @ [ImGui_Render]\<rparr>))"
    using assms by (simp add: EndFrame_def Let_def)
  have a: "\<not> bIsFrameStarted (EndFrame L s)" by simp
  have b: "\<exists>Stores. calls (EndFrame L s) = calls s @ ImGui_Render # Stores"
    by (rule EndFrame_calls [OF assms])
  have c: "\<forall>Previous. DrawLists (EndFrame L (s\<lparr>DrawLists := Previous\<rparr>)) = DrawLists (EndFrame L s)"
    by (simp only: dl dl0 indep) simp
  have d: "(case ?dd of
          None \<Rightarrow> DrawLists (EndFrame L s) = []
        | Some D \<Rightarrow>
            (CmdListsCount D \<le> 0 \<longrightarrow> DrawLists (EndFrame L s) = [])
          \<and> (0 < CmdListsCount D \<and> CmdListsCount D = int (length (CmdLists D)) \<longrightarrow>
                length (DrawLists (EndFrame L s)) = length (CmdLists D)
              \<and> (\<forall>i < length (CmdLists D). \<forall>This.
                    DrawLists (EndFrame L s) ! i = fst (TransferDrawData This (CmdLists D ! i)))))"
  proof (cases ?dd)
    case None
    then show ?thesis by (simp add: dl0 UpdateDrawData_none)
  next
    case (Some D)
    have z: "DrawLists (EndFrame L s) = []" if "CmdListsCount D \<le> 0"
      using that Some by (simp add: dl0 UpdateDrawData_none)
    have p: "length (DrawLists (EndFrame L s)) = length (CmdLists D)
        \<and> (\<forall>i < length (CmdLists D). \<forall>This.
              DrawLists (EndFrame L s) ! i = fst (TransferDrawData This (CmdLists D ! i)))"
      if w: "0 < CmdListsCount D \<and> CmdListsCount D = int (length (CmdLists D))"
    proof -
      from w have n: "nat (CmdListsCount D) = length (CmdLists D)" by simp
      from w have pos: "0 < CmdListsCount D" by (rule conjunct1)
      have "DrawLists (EndFrame L s) =
          map (\<lambda>i. fst (TransferDrawData FImGuiDrawList_default (CmdLists D ! i)))
            [0 ..< length (CmdLists D)]"
        by (simp add: dl0 Some UpdateDrawData_lists [OF pos] n)
      then show ?thesis
        by (simp add: TransferDrawData_def)
    qed
    have "(CmdListsCount D \<le> 0 \<longrightarrow> DrawLists (EndFrame L s) = [])
          \<and> (0 < CmdListsCount D \<and> CmdListsCount D = int (length (CmdLists D)) \<longrightarrow>
                length (DrawLists (EndFrame L s)) = length (CmdLists D)
              \<and> (\<forall>i < length (CmdLists D). \<forall>This.
                    DrawLists (EndFrame L s) ! i = fst (TransferDrawData This (CmdLists D ! i))))"
      by (rule conjI; rule impI) (erule z, erule p)
    then show ?thesis by (simp only: Some option.case)
  qed
  from a b c d show ?thesis by (intro conjI)
qed






section \<open>A processed tick\<close>


section \<open>Destroying the proxy\<close>

text \<open>
  C9. The destructor of a proxy whose context was created makes that context current,
  saves its settings to the proxy's ini file, destroys the context and last makes the
  library's default context current, in this order; the member is left null and the
  library's current-context pointer is the default context. For a live proxy the context
  is one created on the heap, so the pointer is not the destroyed context, and the ini
  file is \<^verbatim>\<open>ImGui/<Name>.ini\<close> under the host's save directory. A proxy with no context
  is left as it is.
\<close>

theorem Destruct_restores_default_context:
  fixes s :: "('f::{numeral,inverse}) FImGuiContextProxy"
  shows "(\<forall>Created. Context s = Some Created \<longrightarrow>
        calls (FImGuiContextProxy_Destruct s) =
          calls s @ [ImGui_SetCurrentContext (Some Created),
                     SaveIniSettingsToDisk (IniFilename s),
                     ImGui_DestroyContext Created,
                     ImGui_SetCurrentContext (Some GImDefaultContext)]
      \<and> GImGui (FImGuiContextProxy_Destruct s) = Some GImDefaultContext
      \<and> Context (FImGuiContextProxy_Destruct s) = None)
    \<and> (Context s = None \<longrightarrow> FImGuiContextProxy_Destruct s = s)
    \<and> (\<forall>SavedDir. live_proxy SavedDir s \<longrightarrow>
          (\<exists>a. Context s = Some (HeapContext a)
              \<and> GImGui (FImGuiContextProxy_Destruct s) \<noteq> Some (HeapContext a))
        \<and> IniFilename s = Combine (Combine SavedDir ''ImGui'') (Name s @ ''.ini''))"
proof (intro conjI allI impI)
  fix Created
  assume c: "Context s = Some Created"
  show "calls (FImGuiContextProxy_Destruct s) =
          calls s @ [ImGui_SetCurrentContext (Some Created),
                     SaveIniSettingsToDisk (IniFilename s),
                     ImGui_DestroyContext Created,
                     ImGui_SetCurrentContext (Some GImDefaultContext)]"
    by (simp add: Destruct_created [OF c])
  show "GImGui (FImGuiContextProxy_Destruct s) = Some GImDefaultContext"
    by (simp add: Destruct_created [OF c])
  show "Context (FImGuiContextProxy_Destruct s) = None"
    by (simp add: Destruct_created [OF c])
next
  assume "Context s = None"
  then show "FImGuiContextProxy_Destruct s = s"
    by (simp add: FImGuiContextProxy_Destruct_def)
next
  fix SavedDir
  assume l: "live_proxy SavedDir s"
  from live_proxy_invariant [OF l] obtain a where a: "Context s = Some (HeapContext a)"
    and i: "IniFilename s = Combine (Combine SavedDir ''ImGui'') (Name s @ ''.ini'')"
    by blast
  have "GImGui (FImGuiContextProxy_Destruct s) \<noteq> Some (HeapContext a)"
    by (simp add: Destruct_created [OF a])
  with a show "\<exists>a. Context s = Some (HeapContext a)
              \<and> GImGui (FImGuiContextProxy_Destruct s) \<noteq> Some (HeapContext a)"
    by blast
  from i show "IniFilename s = Combine (Combine SavedDir ''ImGui'') (Name s @ ''.ini'')" .
qed

section \<open>The theorems on concrete inputs\<close>

theorem Draw_broadcast_order_witness:
  "bIsFrameStarted example_proxy \<and> \<not> bIsDrawCalled example_proxy
   \<and> SharedDrawEvent example_proxy = Some [9] \<and> IsBound [9] \<and> IsBound (DrawEvent example_proxy)
   \<and> calls (Draw (example_host\<lparr>DebugDrawOnWorldTick := 1\<rparr>) example_proxy) =
        [ImGui_SetCurrentContext (Some (HeapContext 0)), SharedDrawEvent_Broadcast [9],
         DrawEvent_Broadcast [1, 2]]
   \<and> calls (Draw (example_host\<lparr>DebugDrawOnWorldTick := 0\<rparr>) example_proxy) =
        [ImGui_SetCurrentContext (Some (HeapContext 0)), DrawEvent_Broadcast [1, 2],
         SharedDrawEvent_Broadcast [9]]"
proof -
  have st: "bIsFrameStarted example_proxy" and nd: "\<not> bIsDrawCalled example_proxy"
    by (simp_all add: example_proxy_def)
  have b: "SharedDrawEvent example_proxy = Some [9] \<and> IsBound [9]
      \<and> IsBound (DrawEvent example_proxy)"
    by (simp add: example_proxy_def IsBound_def)
  from Draw_broadcast_order [OF st nd, of example_host, THEN conjunct2, rule_format, OF b]
  have "calls (Draw (example_host\<lparr>DebugDrawOnWorldTick := 1\<rparr>) example_proxy) =
        [ImGui_SetCurrentContext (Some (HeapContext 0)), SharedDrawEvent_Broadcast [9],
         DrawEvent_Broadcast [1, 2]]
   \<and> calls (Draw (example_host\<lparr>DebugDrawOnWorldTick := 0\<rparr>) example_proxy) =
        [ImGui_SetCurrentContext (Some (HeapContext 0)), DrawEvent_Broadcast [1, 2],
         SharedDrawEvent_Broadcast [9]]"
    by (simp add: example_proxy_def)
  with st nd b show ?thesis by simp
qed

theorem redundant_calls_absorbed_witness:
  "\<not> bIsFrameStarted (example_proxy\<lparr>bIsFrameStarted := False\<rparr>)
   \<and> EndFrame example_library (example_proxy\<lparr>bIsFrameStarted := False\<rparr>)
       = example_proxy\<lparr>bIsFrameStarted := False\<rparr>
   \<and> Draw example_host (example_proxy\<lparr>bIsFrameStarted := False\<rparr>)
       = example_proxy\<lparr>bIsFrameStarted := False\<rparr>
   \<and> bIsDrawCalled (example_proxy\<lparr>bIsDrawCalled := True\<rparr>)
   \<and> Draw example_host (example_proxy\<lparr>bIsDrawCalled := True\<rparr>)
       = example_proxy\<lparr>bIsDrawCalled := True\<rparr>
   \<and> bIsFrameStarted example_proxy
   \<and> BeginFrame example_host example_library (1 / 60) example_proxy = Inr example_proxy"
proof -
  let ?idle = "example_proxy\<lparr>bIsFrameStarted := False\<rparr>"
  let ?drawn = "example_proxy\<lparr>bIsDrawCalled := True\<rparr>"
  have i: "\<not> bIsFrameStarted ?idle" by simp
  have d: "bIsDrawCalled ?drawn" by simp
  have st: "bIsFrameStarted example_proxy" by (simp add: example_proxy_def)
  from redundant_calls_absorbed [of ?idle example_library example_host "1 / 60"] i
  have e1: "EndFrame example_library ?idle = ?idle" and e2: "Draw example_host ?idle = ?idle"
    by blast+
  from redundant_calls_absorbed [of ?drawn example_library example_host "1 / 60"] d
  have e3: "Draw example_host ?drawn = ?drawn"
    by blast
  from redundant_calls_absorbed [of example_proxy example_library example_host "1 / 60"] st
  have e4: "BeginFrame example_host example_library (1 / 60) example_proxy = Inr example_proxy"
    by blast
  from i e1 e2 d e3 st e4 show ?thesis by (intro conjI)
qed

theorem EndFrame_replaces_draw_lists_witness:
  "bIsFrameStarted example_proxy
   \<and> length (DrawLists example_proxy) = 2
   \<and> \<not> bIsFrameStarted (EndFrame example_library example_proxy)
   \<and> DrawLists (EndFrame example_library example_proxy) = [example_captured]
   \<and> DrawLists (EndFrame example_library_idle example_proxy) = []"
proof -
  have st: "bIsFrameStarted example_proxy" by (simp add: example_proxy_def)
  have l2: "length (DrawLists example_proxy) = 2" by (simp add: example_proxy_def)
  note t = EndFrame_replaces_draw_lists [OF st, of example_library]
  note u = EndFrame_replaces_draw_lists [OF st, of example_library_idle]
  from t have ns: "\<not> bIsFrameStarted (EndFrame example_library example_proxy)"
    by (rule conjunct1)
  have dd: "GetDrawData example_library (calls example_proxy @ [ImGui_Render])
      = Some \<lparr>CmdLists = [example_draw_list], CmdListsCount = 1\<rparr>"
    by (simp add: example_library_def)
  from t have "length (DrawLists (EndFrame example_library example_proxy)) = 1
      \<and> (\<forall>i < 1. \<forall>This. DrawLists (EndFrame example_library example_proxy) ! i
            = fst (TransferDrawData This ([example_draw_list] ! i)))"
    by (simp add: dd)
  then have one: "DrawLists (EndFrame example_library example_proxy) = [example_captured]"
    by (simp add: list_eq_iff_nth_eq example_captured_def)
  have di: "GetDrawData example_library_idle (calls example_proxy @ [ImGui_Render])
      = Some \<lparr>CmdLists = [], CmdListsCount = 0\<rparr>"
    by (simp add: example_library_idle_def)
  from u have none: "DrawLists (EndFrame example_library_idle example_proxy) = []"
    by (simp add: di)
  from st l2 ns one none show ?thesis by (intro conjI)
qed

lemma example_new_frame: "LastFrameNumber example_proxy < GFrameNumber example_host"
  by (simp add: example_proxy_def example_host_def)

lemma example_key_map:
  "\<exists>Codes. GetKeyIndices example_host (map snd SetUnrealKeyMap_keys) = Inr Codes"
  by (simp add: example_host_def SetUnrealKeyMap_keys_def GetKeyIndex_def)

theorem Tick_same_frame_noop_witness:
  "GFrameNumber (example_host\<lparr>DebugDrawOnWorldTick := 1\<rparr>) = GFrameNumber example_host
   \<and> (\<exists>s1. Tick example_host example_library (1 / 60) example_proxy = Inr s1
        \<and> LastFrameNumber s1 = 7
        \<and> Tick (example_host\<lparr>DebugDrawOnWorldTick := 1\<rparr>) example_library_idle (1 / 30) s1
            = Inr s1)"
proof -
  have same: "GFrameNumber (example_host\<lparr>DebugDrawOnWorldTick := 1\<rparr>) = GFrameNumber example_host"
    by simp
  have "InputState example_proxy = None \<or>
      (\<exists>Codes. GetKeyIndices example_host CopyInput_statics = Inr Codes)"
    by (simp add: example_proxy_def)
  from Tick_new_frame_returns [OF example_new_frame this]
  obtain s1 where first: "Tick example_host example_library (1 / 60) example_proxy = Inr s1"
    by blast
  from Tick_new_frame_result [OF example_new_frame first]
  have n: "LastFrameNumber s1 = 7"
    by (simp add: example_host_def)
  from Tick_same_frame_noop [OF same first]
  have "Tick (example_host\<lparr>DebugDrawOnWorldTick := 1\<rparr>) example_library_idle (1 / 30) s1 = Inr s1" .
  with same first n show ?thesis by blast
qed


theorem Destruct_restores_default_context_witness:
  "(\<exists>s. FImGuiContextProxy_Construct example_host example_library ''A'' (Some [9]) [] = Inr s
     \<and> live_proxy ''Saved'' s
     \<and> Context s = Some (HeapContext 0)
     \<and> calls (FImGuiContextProxy_Destruct s) =
         calls s @ [ImGui_SetCurrentContext (Some (HeapContext 0)),
                    SaveIniSettingsToDisk ''Saved/ImGui/A.ini'',
                    ImGui_DestroyContext (HeapContext 0),
                    ImGui_SetCurrentContext (Some GImDefaultContext)]
     \<and> GImGui (FImGuiContextProxy_Destruct s) = Some GImDefaultContext
     \<and> GImGui (FImGuiContextProxy_Destruct s) \<noteq> Some (HeapContext 0))
   \<and> Context (example_proxy\<lparr>Context := None\<rparr>) = None
   \<and> FImGuiContextProxy_Destruct (example_proxy\<lparr>Context := None\<rparr>)
       = example_proxy\<lparr>Context := None\<rparr>"
proof -
  from example_key_map obtain Codes
    where "GetKeyIndices example_host (map snd SetUnrealKeyMap_keys) = Inr Codes" ..
  from Construct_returns [OF this]
  obtain s :: "rat FImGuiContextProxy" where
    c: "FImGuiContextProxy_Construct example_host example_library ''A'' (Some [9]) [] = Inr s"
    by blast
  have l: "live_proxy ''Saved'' s"
    by (rule live_proxy.constructed [OF c]) (simp add: example_host_def)
  from Construct_result [OF c] have ctx: "Context s = Some (HeapContext 0)" and nm: "Name s = ''A''"
    by (simp_all add: example_library_def)
  note t = Destruct_restores_default_context [of s]
  from t l have ini: "IniFilename s = Combine (Combine ''Saved'' ''ImGui'') (Name s @ ''.ini'')"
    by blast
  then have ini': "IniFilename s = ''Saved/ImGui/A.ini''"
    by (simp add: nm Combine_def)
  from t l ctx have ne: "GImGui (FImGuiContextProxy_Destruct s) \<noteq> Some (HeapContext 0)"
    by auto
  from t ctx have "calls (FImGuiContextProxy_Destruct s) =
          calls s @ [ImGui_SetCurrentContext (Some (HeapContext 0)),
                     SaveIniSettingsToDisk (IniFilename s),
                     ImGui_DestroyContext (HeapContext 0),
                     ImGui_SetCurrentContext (Some GImDefaultContext)]"
    and g: "GImGui (FImGuiContextProxy_Destruct s) = Some GImDefaultContext"
    by blast+
  with ini' have cs: "calls (FImGuiContextProxy_Destruct s) =
         calls s @ [ImGui_SetCurrentContext (Some (HeapContext 0)),
                    SaveIniSettingsToDisk ''Saved/ImGui/A.ini'',
                    ImGui_DestroyContext (HeapContext 0),
                    ImGui_SetCurrentContext (Some GImDefaultContext)]"
    by simp
  let ?moved = "example_proxy\<lparr>Context := None\<rparr>"
  have n: "Context ?moved = None" by simp
  from Destruct_restores_default_context [of ?moved] n
  have m: "FImGuiContextProxy_Destruct ?moved = ?moved"
    by blast
  from c l ctx cs g ne have "\<exists>s. FImGuiContextProxy_Construct example_host example_library ''A'' (Some [9]) [] = Inr s
     \<and> live_proxy ''Saved'' s
     \<and> Context s = Some (HeapContext 0)
     \<and> calls (FImGuiContextProxy_Destruct s) =
         calls s @ [ImGui_SetCurrentContext (Some (HeapContext 0)),
                    SaveIniSettingsToDisk ''Saved/ImGui/A.ini'',
                    ImGui_DestroyContext (HeapContext 0),
                    ImGui_SetCurrentContext (Some GImDefaultContext)]
     \<and> GImGui (FImGuiContextProxy_Destruct s) = Some GImDefaultContext
     \<and> GImGui (FImGuiContextProxy_Destruct s) \<noteq> Some (HeapContext 0)"
    by blast
  with n m show ?thesis by (intro conjI)
qed

end
